theory Spec2Isabelle
  imports Main "HOL-Library.List_Lexorder" "HOL-Library.Char_ord"
begin

text \<open>
  A model of the recipe service: the user manager and the model classes of
  core/models.py, and the view sets of recipe/views.py. The database is a record of
  tables, a table is the list of its rows, and an operation that writes returns the new
  database. A Python exception is the left summand of a result. What belongs to the
  web framework and the object-relational mapper (query sets, \<^verbatim>\<open>get_object\<close>, the
  exception handler, \<^verbatim>\<open>normalize_email\<close>, \<^verbatim>\<open>serializer.save\<close>) is modelled by what it
  does for the calls these two files make. Outside the model: strings beyond ASCII,
  the ranges and lengths of the database columns (identifiers are mathematical
  integers here; what a query does with an identifier beyond 64 bits depends on the
  database, so a statement that a list is returned is made for identifiers within 64
  bits), pagination, and the order that the database gives rows with equal sort keys.
\<close>

section \<open>Python values: exceptions, strings, integers\<close>

text \<open>
  The exceptions the modelled code paths can raise. \<open>ValueError\<close> is Python's builtin
  (raised by \<^verbatim>\<open>int(...)\<close> and by the explicit \<^verbatim>\<open>raise ValueError(...)\<close> of the manager),
  \<open>ValidationError\<close> is the framework's validation exception (a different class, not a
  subclass of \<open>ValueError\<close>), \<open>IntegrityError\<close> is the database's answer to a violated
  unique or not-null constraint, \<open>Http404\<close> and \<open>MultipleObjectsReturned\<close> are what
  \<^verbatim>\<open>get_object\<close> raises when no row or more than one row has the identifier.
\<close>

datatype py_exception =
  ValueError | ValidationError | IntegrityError | Http404 | MultipleObjectsReturned

text \<open>
  Strings are ASCII strings. \<^verbatim>\<open>str.isspace\<close> on ASCII, which is what \<^verbatim>\<open>str.strip\<close>
  removes: TAB, LF, VT, FF, CR, the four separators 0x1C..0x1F and the blank.
\<close>

definition is_space :: "char \<Rightarrow> bool" where
  "is_space c = (let n = (of_char c :: nat) in n = 32 \<or> (9 \<le> n \<and> n \<le> 13) \<or> (28 \<le> n \<and> n \<le> 31))"

definition is_digit :: "char \<Rightarrow> bool" where
  "is_digit c = (let n = (of_char c :: nat) in 48 \<le> n \<and> n \<le> 57)"

definition digit_val :: "char \<Rightarrow> nat" where
  "digit_val c = (of_char c :: nat) - 48"

text \<open>\<^verbatim>\<open>s.strip()\<close>: whitespace removed at both ends.\<close>

definition str_strip :: "string \<Rightarrow> string" where
  "str_strip s = rev (dropWhile is_space (rev (dropWhile is_space s)))"

text \<open>\<^verbatim>\<open>s.lower()\<close> on ASCII: the letters A..Z move to a..z, every other character stays.\<close>

definition char_lower :: "char \<Rightarrow> char" where
  "char_lower c = (let n = (of_char c :: nat) in if 65 \<le> n \<and> n \<le> 90 then char_of (n + 32) else c)"

definition str_lower :: "string \<Rightarrow> string" where
  "str_lower s = map char_lower s"

text \<open>
  \<^verbatim>\<open>s.split(sep)\<close> for a one-character separator: the pieces between the separators, empty
  pieces kept, so the empty string splits into one empty piece.
\<close>

fun str_split :: "char \<Rightarrow> string \<Rightarrow> string list" where
  "str_split sep [] = [[]]"
| "str_split sep (c # cs) =
     (if c = sep then [] # str_split sep cs
      else (case str_split sep cs of
              [] \<Rightarrow> [[c]]
            | w # ws \<Rightarrow> (c # w) # ws))"

text \<open>
  \<^verbatim>\<open>int(s)\<close> for an ASCII string, base 10. Whitespace at both ends is dropped, and
  here whitespace is TAB, LF, VT, FF, CR and the blank only: the separators 0x1C..0x1F,
  which \<^verbatim>\<open>str.strip\<close> removes, are not whitespace for \<^verbatim>\<open>int\<close>. Then one sign is
  allowed, then decimal digits, where single underscores may stand between two digits.
  A string with more digits than the interpreter's limit (4300, leading zeros counted,
  underscores not) is rejected. Anything else raises \<open>ValueError\<close> too: the value
  \<open>None\<close> here. \<open>py_digits seen acc s\<close> reads the digits; \<open>seen\<close> says that the
  character before was a digit.
\<close>

definition is_int_space :: "char \<Rightarrow> bool" where
  "is_int_space c = (let n = (of_char c :: nat) in n = 32 \<or> (9 \<le> n \<and> n \<le> 13))"

definition int_strip :: "string \<Rightarrow> string" where
  "int_strip s = rev (dropWhile is_int_space (rev (dropWhile is_int_space s)))"

definition int_max_str_digits :: nat where
  "int_max_str_digits = 4300"

fun py_digits :: "bool \<Rightarrow> nat \<Rightarrow> string \<Rightarrow> nat option" where
  "py_digits seen acc [] = (if seen then Some acc else None)"
| "py_digits seen acc (c # cs) =
     (if is_digit c then py_digits True (acc * 10 + digit_val c) cs
      else if c = CHR ''_'' \<and> seen then py_digits False acc cs
      else None)"

definition py_int :: "string \<Rightarrow> int option" where
  "py_int s =
     (case int_strip s of
        [] \<Rightarrow> None
      | c # cs \<Rightarrow>
          if int_max_str_digits < length (filter is_digit (c # cs)) then None
          else if c = CHR ''-'' then map_option (\<lambda>n. - int n) (py_digits False 0 cs)
          else if c = CHR ''+'' then map_option int (py_digits False 0 cs)
          else map_option int (py_digits False 0 (c # cs)))"

section \<open>The data model (core/models.py)\<close>

text \<open>
  One record per model class; the primary key \<open>id\<close> that the framework adds is a field.
  \<open>Tag\<close> and \<open>Ingredient\<close> declare the same two fields, so both are rows of type
  \<open>attr\<close>. A foreign key holds the identifier of the row it points to. The two
  many-to-many fields of \<open>Recipe\<close> are their association tables: lists of pairs
  (recipe identifier, tag or ingredient identifier).
\<close>

record user =
  user_id :: int
  email :: string
  password :: string
  name :: string
  is_active :: bool
  is_staff :: bool
  is_superuser :: bool

record attr =
  attr_id :: int
  attr_name :: string
  attr_user :: int

record recipe =
  recipe_id :: int
  title :: string
  description :: string
  time_minutes :: int
  price :: int
  link :: string
  recipe_user :: int
  image :: "string option"

record db =
  users :: "user list"
  recipes :: "recipe list"
  tags :: "attr list"
  ingredients :: "attr list"
  recipe_tags :: "(int \<times> int) list"
  recipe_ingredients :: "(int \<times> int) list"

text \<open>
  A request as the views read it: the authenticated user (the permission class lets no
  other request reach a view) and the query parameters of the URL.
\<close>

record request =
  request_user :: user
  query_params :: "string \<rightharpoonup> string"

section \<open>Query sets\<close>

text \<open>
  A query set is the list of rows its query selects. A filter through a many-to-many
  field is an inner join with the association table: one row per matching pair, so
  a recipe that matches twice is there twice until \<open>distinct\<close> removes the copies.
  \<open>order_by\<close> sorts on the key; which of two rows with equal keys comes first is the
  database's choice, and the model takes the one a stable sort gives.
\<close>

definition filter_m2m_id_in :: "(int \<times> int) list \<Rightarrow> int list \<Rightarrow> recipe list \<Rightarrow> recipe list" where
  "filter_m2m_id_in through ids rows =
     [r. r \<leftarrow> rows, l \<leftarrow> through, fst l = recipe_id r \<and> snd l \<in> set ids]"

definition filter_recipe_user :: "user \<Rightarrow> recipe list \<Rightarrow> recipe list" where
  "filter_recipe_user u rows = filter (\<lambda>r. recipe_user r = user_id u) rows"

definition order_by_id_desc :: "recipe list \<Rightarrow> recipe list" where
  "order_by_id_desc rows = sort_key (\<lambda>r. - recipe_id r) rows"

definition filter_recipe_isnull_False :: "(int \<times> int) list \<Rightarrow> attr list \<Rightarrow> attr list" where
  "filter_recipe_isnull_False through rows =
     [a. a \<leftarrow> rows, l \<leftarrow> through, snd l = attr_id a]"

definition filter_attr_user :: "user \<Rightarrow> attr list \<Rightarrow> attr list" where
  "filter_attr_user u rows = filter (\<lambda>a. attr_user a = user_id u) rows"

definition order_by_name_desc :: "attr list \<Rightarrow> attr list" where
  "order_by_name_desc rows = rev (sort_key attr_name rows)"

section \<open>The recipe view set (recipe/views.py)\<close>

text \<open>\<^verbatim>\<open>[int(str_id) for str_id in ...]\<close>: the first string that is no integer raises.\<close>

fun ints_of :: "string list \<Rightarrow> py_exception + int list" where
  "ints_of [] = Inr []"
| "ints_of (s # ss) =
     (case py_int s of
        None \<Rightarrow> Inl ValueError
      | Some n \<Rightarrow> (case ints_of ss of Inl e \<Rightarrow> Inl e | Inr ns \<Rightarrow> Inr (n # ns)))"

definition params_to_ints :: "string \<Rightarrow> py_exception + int list" where
  "params_to_ints qs = ints_of (str_split CHR '','' qs)"

text \<open>
  \<^verbatim>\<open>if tags:\<close> is Python's truth test of the value \<^verbatim>\<open>query_params.get("tags")\<close>: an absent
  parameter (\<open>None\<close>) and the empty string are both false.
\<close>

definition truthy :: "string option \<Rightarrow> bool" where
  "truthy p = (case p of None \<Rightarrow> False | Some s \<Rightarrow> s \<noteq> [])"

definition RecipeViewset_get_queryset :: "db \<Rightarrow> request \<Rightarrow> py_exception + recipe list" where
  "RecipeViewset_get_queryset d request =
     (let tags = query_params request ''tags'';
          ingredients = query_params request ''ingredients'';
          queryset = recipes d
      in case (if truthy tags
               then (case params_to_ints (case tags of Some s \<Rightarrow> s | None \<Rightarrow> []) of
                       Inl e \<Rightarrow> Inl e
                     | Inr tag_ids \<Rightarrow> Inr (filter_m2m_id_in (recipe_tags d) tag_ids queryset))
               else Inr queryset) of
           Inl e \<Rightarrow> Inl e
         | Inr queryset \<Rightarrow>
            (case (if truthy ingredients
                   then (case params_to_ints (case ingredients of Some s \<Rightarrow> s | None \<Rightarrow> []) of
                           Inl e \<Rightarrow> Inl e
                         | Inr ingredient_ids \<Rightarrow>
                             Inr (filter_m2m_id_in (recipe_ingredients d) ingredient_ids queryset))
                   else Inr queryset) of
               Inl e \<Rightarrow> Inl e
             | Inr queryset \<Rightarrow>
                 Inr (remdups (order_by_id_desc (filter_recipe_user (request_user request) queryset)))))"

text \<open>
  Responses. A view returns a response with a status and a body, or an exception leaves
  it. The framework's exception handler turns \<open>Http404\<close> into a 404 response; for
  every other exception of this model it returns nothing, the exception is raised again
  and the request ends as an unhandled server error: \<open>Inl\<close> of a view's result.
\<close>

datatype 'r payload =
  Records "'r list"
  | Record 'r
  | Detail string
  | FieldErrors "(string \<times> string list) list"

datatype 'r response = Response (status: nat) (data: "'r payload")

definition handle_exception :: "py_exception \<Rightarrow> py_exception + 'r response" where
  "handle_exception exc =
     (case exc of
        Http404 \<Rightarrow> Inr (Response 404 (Detail ''Not found.''))
      | _ \<Rightarrow> Inl exc)"

text \<open>
  The list action of the framework's model view set on this query set: the rows of
  \<open>get_queryset\<close>, each in the representation of the list serializer
  (\<open>to_representation\<close>, a parameter: the serializers are not part of these sources),
  with status 200.
\<close>

definition RecipeViewset_list ::
    "(recipe \<Rightarrow> 'r) \<Rightarrow> db \<Rightarrow> request \<Rightarrow> py_exception + 'r response" where
  "RecipeViewset_list to_representation d request =
     (case RecipeViewset_get_queryset d request of
        Inl exc \<Rightarrow> handle_exception exc
      | Inr queryset \<Rightarrow> Inr (Response 200 (Records (map to_representation queryset))))"

section \<open>The attribute view sets (recipe/views.py)\<close>

text \<open>
  \<^verbatim>\<open>bool(int(query_params.get("assigned_only", 0)))\<close>: the default is the integer 0, a
  given value is a string that \<^verbatim>\<open>int\<close> parses or rejects. The class attribute
  \<open>queryset\<close> of the base class is set by the two subclasses, so it and the association
  table of the reverse relation \<open>recipe\<close> are arguments here.
\<close>

definition BaseRecipeAttrViewSet_get_queryset ::
    "attr list \<Rightarrow> (int \<times> int) list \<Rightarrow> request \<Rightarrow> py_exception + attr list" where
  "BaseRecipeAttrViewSet_get_queryset all_rows through request =
     (case (case query_params request ''assigned_only'' of None \<Rightarrow> Some 0 | Some s \<Rightarrow> py_int s) of
        None \<Rightarrow> Inl ValueError
      | Some n \<Rightarrow>
          (let assigned_only = (n \<noteq> 0);
               queryset = all_rows;
               queryset = (if assigned_only then filter_recipe_isnull_False through queryset
                           else queryset)
           in Inr (remdups (order_by_name_desc (filter_attr_user (request_user request) queryset)))))"

definition TagViewSet_get_queryset :: "db \<Rightarrow> request \<Rightarrow> py_exception + attr list" where
  "TagViewSet_get_queryset d request =
     BaseRecipeAttrViewSet_get_queryset (tags d) (recipe_tags d) request"

definition IngredientViewSet_get_queryset :: "db \<Rightarrow> request \<Rightarrow> py_exception + attr list" where
  "IngredientViewSet_get_queryset d request =
     BaseRecipeAttrViewSet_get_queryset (ingredients d) (recipe_ingredients d) request"

section \<open>Detail actions of the recipe view set (recipe/views.py)\<close>

text \<open>
  \<^verbatim>\<open>self.get_object()\<close> is the framework's: the row of \<open>self.get_queryset()\<close> whose
  identifier is the one of the URL, \<open>Http404\<close> when there is none. It goes through
  \<open>get_queryset\<close>, so it sees the caller's recipes only, and the \<open>tags\<close> and
  \<open>ingredients\<close> parameters of the URL are read here too.
\<close>

definition get_object :: "db \<Rightarrow> request \<Rightarrow> int \<Rightarrow> py_exception + recipe" where
  "get_object d request pk =
     (case RecipeViewset_get_queryset d request of
        Inl exc \<Rightarrow> Inl exc
      | Inr queryset \<Rightarrow>
          (case filter (\<lambda>r. recipe_id r = pk) queryset of
             [] \<Rightarrow> Inl Http404
           | [obj] \<Rightarrow> Inr obj
           | _ \<Rightarrow> Inl MultipleObjectsReturned))"

text \<open>
  Modelled from the spec: the image serializer (recipe/serializers.py) is not among the
  sources. "On validation success persists and returns the updated representation":
  saving a valid serializer stores the validated image reference in the row of the
  instance and gives the instance back.
\<close>

definition serializer_update :: "db \<Rightarrow> recipe \<Rightarrow> string \<Rightarrow> recipe \<times> db" where
  "serializer_update d instance validated_image =
     (let instance' = instance\<lparr>image := Some validated_image\<rparr>
      in (instance',
          d\<lparr>recipes := map (\<lambda>r. if recipe_id r = recipe_id instance' then instance' else r)
                            (recipes d)\<rparr>))"

text \<open>
  The action \<open>upload_image\<close>. The serializer's validation (\<open>is_valid\<close>: field errors, or
  the validated image reference) and its representation of a recipe are parameters.
  The result is the response and the database after the request.
\<close>

definition upload_image ::
    "('d \<Rightarrow> (string \<times> string list) list + string) \<Rightarrow> (recipe \<Rightarrow> 'r) \<Rightarrow>
     db \<Rightarrow> request \<Rightarrow> 'd \<Rightarrow> int \<Rightarrow> py_exception + ('r response \<times> db)" where
  "upload_image run_validation to_representation d request request_data pk =
     (case get_object d request pk of
        Inl exc \<Rightarrow> Inl exc
      | Inr recipe \<Rightarrow>
          (case run_validation request_data of
             Inr validated_image \<Rightarrow>
               (let (recipe', d') = serializer_update d recipe validated_image
                in Inr (Response 200 (Record (to_representation recipe')), d'))
           | Inl errors \<Rightarrow> Inr (Response 400 (FieldErrors errors), d)))"

text \<open>
  The data of a valid recipe payload. \<open>vd_user\<close> is an owner that the payload itself
  may carry, if the serializer lets one through.
\<close>

record validated_data =
  vd_title :: string
  vd_description :: string
  vd_time_minutes :: int
  vd_price :: int
  vd_link :: string
  vd_user :: "user option"

text \<open>
  \<^verbatim>\<open>serializer.save(user=...)\<close> is the framework's: the keyword arguments are merged
  over the validated data (\<^verbatim>\<open>{**validated_data, **kwargs}\<close>) and the serializer's
  \<open>create\<close> gets the result.
\<close>

definition serializer_save ::
    "(db \<Rightarrow> validated_data \<Rightarrow> 'a) \<Rightarrow> db \<Rightarrow> validated_data \<Rightarrow> user \<Rightarrow> 'a" where
  "serializer_save create d validated user_kwarg = create d (validated\<lparr>vd_user := Some user_kwarg\<rparr>)"

definition perform_create ::
    "(db \<Rightarrow> validated_data \<Rightarrow> 'a) \<Rightarrow> db \<Rightarrow> request \<Rightarrow> validated_data \<Rightarrow> 'a" where
  "perform_create create d request validated =
     serializer_save create d validated (request_user request)"

text \<open>The identifier of a new row: one that no row of the table has.\<close>

definition next_id :: "int list \<Rightarrow> int" where
  "next_id ids = fold max ids 0 + 1"

text \<open>
  Modelled from the spec: the recipe serializer's \<open>create\<close> (recipe/serializers.py) is
  not among the sources. "Create: persists a new recipe", with "an assigned integer id"
  and "tags/ingredients empty lists": a new row with the validated fields, owned by the
  user of the validated data, and no association. The column of the owner is not
  nullable, so data without an owner violate the constraint.
\<close>

definition recipe_create :: "db \<Rightarrow> validated_data \<Rightarrow> py_exception + (recipe \<times> db)" where
  "recipe_create d validated =
     (case vd_user validated of
        None \<Rightarrow> Inl IntegrityError
      | Some u \<Rightarrow>
          (let r = \<lparr>recipe_id = next_id (map recipe_id (recipes d)),
                    title = vd_title validated,
                    description = vd_description validated,
                    time_minutes = vd_time_minutes validated,
                    price = vd_price validated,
                    link = vd_link validated,
                    recipe_user = user_id u,
                    image = None\<rparr>
           in Inr (r, d\<lparr>recipes := recipes d @ [r]\<rparr>)))"

section \<open>The user manager (core/models.py)\<close>

text \<open>
  The keyword arguments \<open>**extra_fields\<close>: each field of the user model that a caller
  can name, given or not. A flag is a Python \<open>bool\<close>, so \<^verbatim>\<open>is not True\<close> holds of the
  given value \<open>False\<close> and of nothing else.
\<close>

record extra_fields =
  ef_name :: "string option"
  ef_is_active :: "bool option"
  ef_is_staff :: "bool option"
  ef_is_superuser :: "bool option"

text \<open>
  \<^verbatim>\<open>email.strip().rsplit("@", 1)\<close> unpacked into two names: the text before the last
  \<open>@\<close> and the text after it, and nothing (the unpacking raises) when there is no \<open>@\<close>.
\<close>

definition rsplit_at :: "string \<Rightarrow> (string \<times> string) option" where
  "rsplit_at s =
     (case dropWhile (\<lambda>c. c \<noteq> CHR ''@'') (rev s) of
        [] \<Rightarrow> None
      | _ # name_rev \<Rightarrow> Some (rev name_rev, rev (takeWhile (\<lambda>c. c \<noteq> CHR ''@'') (rev s))))"

text \<open>
  The framework's \<open>normalize_email\<close>: the domain part of the stripped address in lower
  case; an address without \<open>@\<close> is returned as it is.
\<close>

definition normalize_email :: "string \<Rightarrow> string" where
  "normalize_email email_arg =
     (case rsplit_at (str_strip email_arg) of
        None \<Rightarrow> email_arg
      | Some (email_name, domain_part) \<Rightarrow> email_name @ ''@'' @ str_lower domain_part)"

text \<open>
  \<^verbatim>\<open>self.model(email=email, **extra_fields)\<close>: a user that is not saved yet (its
  identifier is set by \<open>save\<close>), the fields not given at their declared defaults.
\<close>

definition User :: "string \<Rightarrow> extra_fields \<Rightarrow> user" where
  "User email_arg extra =
     \<lparr>user_id = 0,
      email = email_arg,
      password = [],
      name = (case ef_name extra of None \<Rightarrow> [] | Some n \<Rightarrow> n),
      is_active = (case ef_is_active extra of None \<Rightarrow> True | Some b \<Rightarrow> b),
      is_staff = (case ef_is_staff extra of None \<Rightarrow> False | Some b \<Rightarrow> b),
      is_superuser = (case ef_is_superuser extra of None \<Rightarrow> False | Some b \<Rightarrow> b)\<rparr>"

text \<open>
  \<^verbatim>\<open>user.save()\<close> of a new user: the email column is unique, so a stored user with the
  same email makes the insert fail; otherwise the row gets its identifier and is stored.
\<close>

definition save_user :: "db \<Rightarrow> user \<Rightarrow> py_exception + (user \<times> db)" where
  "save_user d u =
     (if email u \<in> set (map email (users d)) then Inl IntegrityError
      else (let u' = u\<lparr>user_id := next_id (map user_id (users d))\<rparr>
            in Inr (u', d\<lparr>users := users d @ [u']\<rparr>)))"

text \<open>
  \<open>create_user\<close>. The framework's password hasher (\<^verbatim>\<open>set_password\<close> stores
  \<^verbatim>\<open>make_password(raw)\<close>) is the parameter \<open>make_password\<close>; the password argument is
  optional and defaults to \<open>None\<close>.
\<close>

definition create_user ::
    "(string option \<Rightarrow> string) \<Rightarrow> db \<Rightarrow> string \<Rightarrow> string option \<Rightarrow> extra_fields \<Rightarrow>
     py_exception + (user \<times> db)" where
  "create_user make_password d email_arg password_arg extra =
     (if email_arg = [] then Inl ValueError
      else (let email_arg = normalize_email email_arg;
                u = User email_arg extra;
                u = u\<lparr>password := make_password password_arg\<rparr>
            in save_user d u))"

text \<open>\<^verbatim>\<open>extra_fields.setdefault(key, True)\<close> for the two flags.\<close>

definition setdefault_is_staff :: "extra_fields \<Rightarrow> extra_fields" where
  "setdefault_is_staff extra =
     (case ef_is_staff extra of None \<Rightarrow> extra\<lparr>ef_is_staff := Some True\<rparr> | Some _ \<Rightarrow> extra)"

definition setdefault_is_superuser :: "extra_fields \<Rightarrow> extra_fields" where
  "setdefault_is_superuser extra =
     (case ef_is_superuser extra of None \<Rightarrow> extra\<lparr>ef_is_superuser := Some True\<rparr> | Some _ \<Rightarrow> extra)"

definition create_superuser ::
    "(string option \<Rightarrow> string) \<Rightarrow> db \<Rightarrow> string \<Rightarrow> string option \<Rightarrow> extra_fields \<Rightarrow>
     py_exception + (user \<times> db)" where
  "create_superuser make_password d email_arg password_arg extra =
     (let extra = setdefault_is_staff extra;
          extra = setdefault_is_superuser extra
      in if ef_is_staff extra \<noteq> Some True then Inl ValueError
         else if ef_is_superuser extra \<noteq> Some True then Inl ValueError
         else create_user make_password d email_arg password_arg extra)"

section \<open>Notions the properties are stated with\<close>

text \<open>
  What a \<open>tags\<close> or \<open>ingredients\<close> parameter asks for: nothing when it is absent or empty,
  the identifiers it lists when every piece between the commas is an integer.
\<close>

datatype id_filter = No_filter | Ids "int list"

definition read_filter :: "string option \<Rightarrow> py_exception + id_filter" where
  "read_filter p =
     (case p of
        None \<Rightarrow> Inr No_filter
      | Some s \<Rightarrow>
          if s = [] then Inr No_filter
          else (case params_to_ints s of Inl e \<Rightarrow> Inl e | Inr ids \<Rightarrow> Inr (Ids ids)))"

text \<open>
  How a list of identifiers is written in a parameter, stated without the parser. An
  identifier is written in decimal, with a minus sign when it is negative; a piece of
  the parameter spells an identifier when it is that decimal with any whitespace (of
  the kind \<^verbatim>\<open>int\<close> drops) before and after it; the parameter is the pieces with commas
  between them.
\<close>

definition digit_char :: "nat \<Rightarrow> char" where
  "digit_char n = char_of (48 + n)"

fun decimal_nat :: "nat \<Rightarrow> string" where
  "decimal_nat n =
     (if n < 10 then [digit_char n] else decimal_nat (n div 10) @ [digit_char (n mod 10)])"

definition decimal :: "int \<Rightarrow> string" where
  "decimal i = (if i < 0 then CHR ''-'' # decimal_nat (nat (- i)) else decimal_nat (nat i))"

definition spells :: "string \<Rightarrow> int \<Rightarrow> bool" where
  "spells t i =
     (\<exists>before after. list_all is_int_space before \<and> list_all is_int_space after
        \<and> t = before @ decimal i @ after)"

fun join_commas :: "string list \<Rightarrow> string" where
  "join_commas [] = []"
| "join_commas [t] = t"
| "join_commas (t # u # ts) = t @ CHR '','' # join_commas (u # ts)"

text \<open>An identifier that every database column of identifiers can be compared with.\<close>

definition in_db_range :: "int \<Rightarrow> bool" where
  "in_db_range i = (- (2 ^ 63) \<le> i \<and> i < 2 ^ 63)"

text \<open>
  \<open>lists_ids p f\<close>: the parameter \<open>p\<close> lists what \<open>f\<close> says. It lists nothing when it
  is absent or empty; it lists the identifiers \<open>ids\<close> (at least one, each within 64
  bits) when it is comma-separated pieces that spell them, one by one.
\<close>

fun lists_ids :: "string option \<Rightarrow> id_filter \<Rightarrow> bool" where
  "lists_ids p No_filter = (p = None \<or> p = Some [])"
| "lists_ids p (Ids ids) =
     (ids \<noteq> [] \<and> list_all in_db_range ids
      \<and> (\<exists>ts. list_all2 spells ts ids \<and> p = Some (join_commas ts)))"

text \<open>A recipe passes a filter when it references at least one of the listed identifiers.\<close>

fun passes :: "(int \<times> int) list \<Rightarrow> id_filter \<Rightarrow> recipe \<Rightarrow> bool" where
  "passes through No_filter r = True"
| "passes through (Ids ids) r = (\<exists>i \<in> set ids. (recipe_id r, i) \<in> set through)"

text \<open>The rows a filter leaves: all of them, or the join with the association table.\<close>

fun apply_filter :: "(int \<times> int) list \<Rightarrow> id_filter \<Rightarrow> recipe list \<Rightarrow> recipe list" where
  "apply_filter through No_filter rows = rows"
| "apply_filter through (Ids ids) rows = filter_m2m_id_in through ids rows"

text \<open>An attribute is attached when the association table links some recipe to it.\<close>

definition attached :: "(int \<times> int) list \<Rightarrow> attr \<Rightarrow> bool" where
  "attached through a = (\<exists>l \<in> set through. snd l = attr_id a)"

text \<open>An attribute is attached to a recipe of user \<open>u\<close>.\<close>

definition attached_to_recipe_of :: "recipe list \<Rightarrow> (int \<times> int) list \<Rightarrow> int \<Rightarrow> attr \<Rightarrow> bool" where
  "attached_to_recipe_of rs through u a =
     (\<exists>r \<in> set rs. recipe_user r = u \<and> (recipe_id r, attr_id a) \<in> set through)"

text \<open>
  Every link of the association table joins a recipe and an attribute of one owner. The
  schema does not enforce it.
\<close>

definition links_within_owner :: "recipe list \<Rightarrow> attr list \<Rightarrow> (int \<times> int) list \<Rightarrow> bool" where
  "links_within_owner rs as through =
     list_all (\<lambda>l. list_all (\<lambda>a. snd l = attr_id a \<longrightarrow>
        list_ex (\<lambda>r. recipe_id r = fst l \<and> recipe_user r = attr_user a) rs) as) through"

text \<open>
  A result lists exactly the rows that satisfy \<open>P\<close>: it is a list, it holds those rows
  of the table and no other, no row twice, and the names descend.
\<close>

definition lists_exactly :: "py_exception + attr list \<Rightarrow> attr list \<Rightarrow> (attr \<Rightarrow> bool) \<Rightarrow> bool" where
  "lists_exactly res all_rows P =
     (case res of
        Inl _ \<Rightarrow> False
      | Inr xs \<Rightarrow> set xs = set (filter P all_rows) \<and> distinct xs
                 \<and> sorted_wrt (\<lambda>a b. attr_name b \<le> attr_name a) xs)"

section \<open>A small database\<close>

text \<open>
  Two users with their recipes, tags and ingredients. The recipe Soup carries two tags;
  the tag dessert of the first user is attached to a recipe of the second user only.
\<close>

definition alice :: user where
  "alice = \<lparr>user_id = 1, email = ''alice@example.com'', password = ''!'', name = ''Alice'',
            is_active = True, is_staff = False, is_superuser = False\<rparr>"

definition bob :: user where
  "bob = \<lparr>user_id = 2, email = ''bob@example.com'', password = ''!'', name = ''Bob'',
          is_active = True, is_staff = False, is_superuser = False\<rparr>"

definition new_recipe :: "int \<Rightarrow> string \<Rightarrow> int \<Rightarrow> recipe" where
  "new_recipe i t u =
     \<lparr>recipe_id = i, title = t, description = [], time_minutes = 20, price = 450,
      link = [], recipe_user = u, image = None\<rparr>"

definition new_attr :: "int \<Rightarrow> string \<Rightarrow> int \<Rightarrow> attr" where
  "new_attr i n u = \<lparr>attr_id = i, attr_name = n, attr_user = u\<rparr>"

definition example_db :: db where
  "example_db =
     \<lparr>users = [alice, bob],
      recipes = [new_recipe 1 ''Soup'' 1, new_recipe 2 ''Salad'' 1, new_recipe 3 ''Stew'' 2],
      tags = [new_attr 1 ''vegan'' 1, new_attr 2 ''quick'' 1, new_attr 3 ''spicy'' 2,
              new_attr 4 ''dessert'' 1],
      ingredients = [new_attr 1 ''salt'' 1, new_attr 2 ''kale'' 1, new_attr 3 ''beef'' 2],
      recipe_tags = [(1, 1), (1, 2), (2, 2), (3, 3), (3, 4)],
      recipe_ingredients = [(1, 1), (2, 1), (2, 2), (3, 3)]\<rparr>"

definition request_of :: "user \<Rightarrow> (string \<times> string) list \<Rightarrow> request" where
  "request_of u ps = \<lparr>request_user = u, query_params = map_of ps\<rparr>"

text \<open>A stand-in for the hasher in examples: it never returns its input.\<close>

definition example_hasher :: "string option \<Rightarrow> string" where
  "example_hasher raw = (case raw of None \<Rightarrow> ''!'' | Some p \<Rightarrow> ''sha$'' @ rev p)"

definition no_extra :: extra_fields where
  "no_extra = \<lparr>ef_name = None, ef_is_active = None, ef_is_staff = None, ef_is_superuser = None\<rparr>"

definition soup_data :: validated_data where
  "soup_data = \<lparr>vd_title = ''Soup'', vd_description = [], vd_time_minutes = 20, vd_price = 450,
                vd_link = [], vd_user = Some bob\<rparr>"

text \<open>An image validation for examples: a payload with a file name is valid.\<close>

definition example_validation :: "string option \<Rightarrow> (string \<times> string list) list + string" where
  "example_validation payload =
     (case payload of
        None \<Rightarrow> Inl [(''image'', [''No file was submitted.''])]
      | Some file \<Rightarrow> Inr (''uploads/recipe/'' @ file))"

section \<open>Facts about the query set operations\<close>

lemma set_filter_m2m_id_in:
  "set (filter_m2m_id_in through ids rows) = {r \<in> set rows. passes through (Ids ids) r}"
  by (auto simp: filter_m2m_id_in_def)

lemma set_filter_recipe_isnull_False:
  "set (filter_recipe_isnull_False through rows) = {a \<in> set rows. attached through a}"
  by (auto simp: filter_recipe_isnull_False_def attached_def)

lemma sorted_wrt_remdups: "sorted_wrt P xs \<Longrightarrow> sorted_wrt P (remdups xs)"
  by (induction xs) auto

lemma sorted_order_by_id_desc:
  "sorted_wrt (\<lambda>a b. recipe_id b \<le> recipe_id a) (order_by_id_desc rows)"
proof -
  have "sorted (map (\<lambda>r. - recipe_id r) (sort_key (\<lambda>r. - recipe_id r) rows))"
    by (rule sorted_sort_key)
  then show ?thesis
    by (simp add: order_by_id_desc_def sorted_map)
qed

lemma sorted_order_by_name_desc:
  "sorted_wrt (\<lambda>a b. attr_name b \<le> attr_name a) (order_by_name_desc rows)"
proof -
  have "sorted (map attr_name (sort_key attr_name rows))"
    by (rule sorted_sort_key)
  then have "sorted_wrt (\<lambda>a b. attr_name a \<le> attr_name b) (sort_key attr_name rows)"
    by (simp add: sorted_map)
  then show ?thesis
    by (simp add: order_by_name_desc_def sorted_wrt_rev)
qed

lemma ints_of_error: "ints_of ss = Inl e \<Longrightarrow> e = ValueError"
  by (induction ss arbitrary: e) (auto split: option.splits sum.splits)

lemma ints_of_bad: "t \<in> set ss \<Longrightarrow> py_int t = None \<Longrightarrow> ints_of ss = Inl ValueError"
  by (induction ss) (auto split: option.splits sum.splits dest: ints_of_error)


lemma set_order_by_id_desc: "set (order_by_id_desc rows) = set rows"
  by (simp add: order_by_id_desc_def)

lemma set_order_by_name_desc: "set (order_by_name_desc rows) = set rows"
  by (simp add: order_by_name_desc_def)


lemma read_filter_error: "read_filter p = Inl e \<Longrightarrow> e = ValueError"
  by (auto simp: read_filter_def params_to_ints_def split: option.splits if_splits sum.splits
      dest: ints_of_error)

lemma read_filter_bad:
  "s \<noteq> [] \<Longrightarrow> t \<in> set (str_split CHR '','' s) \<Longrightarrow> py_int t = None \<Longrightarrow>
     read_filter (Some s) = Inl ValueError"
  by (simp add: read_filter_def params_to_ints_def ints_of_bad)

lemma filter_step:
  "(if truthy p
    then (case params_to_ints (case p of Some s \<Rightarrow> s | None \<Rightarrow> []) of
            Inl e \<Rightarrow> Inl e
          | Inr ids \<Rightarrow> Inr (filter_m2m_id_in through ids rows))
    else Inr rows)
   = (case read_filter p of Inl e \<Rightarrow> Inl e | Inr f \<Rightarrow> Inr (apply_filter through f rows))"
  by (cases p) (auto simp: truthy_def read_filter_def split: sum.splits)

lemma get_queryset_read_filter:
  "RecipeViewset_get_queryset d request =
     (case read_filter (query_params request ''tags'') of
        Inl e \<Rightarrow> Inl e
      | Inr tf \<Rightarrow>
         (case read_filter (query_params request ''ingredients'') of
            Inl e \<Rightarrow> Inl e
          | Inr igf \<Rightarrow>
              Inr (remdups (order_by_id_desc (filter_recipe_user (request_user request)
                (apply_filter (recipe_ingredients d) igf (apply_filter (recipe_tags d) tf (recipes d))))))))"
  unfolding RecipeViewset_get_queryset_def Let_def filter_step
  by (simp split: sum.splits)

lemma set_apply_filter:
  "set (apply_filter through f rows) = {r \<in> set rows. passes through f r}"
  by (cases f) (simp_all add: set_filter_m2m_id_in)

lemma strict_desc_ints:
  "distinct (ys :: int list) \<Longrightarrow> sorted_wrt (\<lambda>a b. b \<le> a) ys \<Longrightarrow> sorted_wrt (\<lambda>a b. b < a) ys"
  by (induction ys) (auto simp: less_le)

lemma strict_desc_key:
  fixes f :: "'a \<Rightarrow> int"
  assumes "inj_on f (set xs)" "distinct xs" "sorted_wrt (\<lambda>a b. f b \<le> f a) xs"
  shows "sorted_wrt (\<lambda>a b. f b < f a) xs"
proof -
  have "distinct (map f xs)"
    using assms(1,2) by (simp add: distinct_map)
  moreover have "sorted_wrt (\<lambda>a b. b \<le> a) (map f xs)"
    using assms(3) by (simp add: sorted_wrt_map)
  ultimately have "sorted_wrt (\<lambda>a b. b < a) (map f xs)"
    by (rule strict_desc_ints)
  then show ?thesis
    by (simp add: sorted_wrt_map)
qed


lemma set_filter_recipe_user:
  "set (filter_recipe_user u rows) = {r \<in> set rows. recipe_user r = user_id u}"
  by (simp add: filter_recipe_user_def)

lemma set_filter_attr_user:
  "set (filter_attr_user u rows) = {a \<in> set rows. attr_user a = user_id u}"
  by (simp add: filter_attr_user_def)

lemma inj_on_subset_key: "distinct (map f xs) \<Longrightarrow> set ys \<subseteq> set xs \<Longrightarrow> inj_on f (set ys)"
  by (meson distinct_map inj_on_subset)

lemma recipe_rows_sorted:
  "sorted_wrt (\<lambda>a b. recipe_id b \<le> recipe_id a) (remdups (order_by_id_desc rows))"
  by (intro sorted_wrt_remdups sorted_order_by_id_desc)

section \<open>Owner scoping of the list operations\<close>

text \<open>
  Claim C1. Whatever the database holds and whatever the query parameters are, a list that
  the recipe, tag or ingredient view set returns for a request holds only rows owned by
  the user of the request; a row owned by a user with another identifier is never in it.
\<close>

theorem list_owner_scoping:
  assumes "user_id (request_user request) \<noteq> user_id b"
  shows "(\<forall>rs. RecipeViewset_get_queryset d request = Inr rs \<longrightarrow>
            (\<forall>r \<in> set rs. recipe_user r = user_id (request_user request) \<and> recipe_user r \<noteq> user_id b))
       \<and> (\<forall>ts. TagViewSet_get_queryset d request = Inr ts \<longrightarrow>
            (\<forall>t \<in> set ts. attr_user t = user_id (request_user request) \<and> attr_user t \<noteq> user_id b))
       \<and> (\<forall>is. IngredientViewSet_get_queryset d request = Inr is \<longrightarrow>
            (\<forall>i \<in> set is. attr_user i = user_id (request_user request) \<and> attr_user i \<noteq> user_id b))"
proof -
  have base: "attr_user a = user_id (request_user request)"
    if "BaseRecipeAttrViewSet_get_queryset all_rows through request = Inr xs" "a \<in> set xs"
    for all_rows through xs a
  proof -
    from that(1) obtain rows where "xs = remdups (order_by_name_desc (filter_attr_user (request_user request) rows))"
      by (auto simp: BaseRecipeAttrViewSet_get_queryset_def Let_def split: option.splits)
    with that(2) show ?thesis
      by (simp add: set_order_by_name_desc set_filter_attr_user)
  qed
  have rec: "recipe_user r = user_id (request_user request)"
    if "RecipeViewset_get_queryset d request = Inr rs" "r \<in> set rs" for rs r
  proof -
    from that(1) obtain rows where "rs = remdups (order_by_id_desc (filter_recipe_user (request_user request) rows))"
      by (auto simp: get_queryset_read_filter split: sum.splits)
    with that(2) show ?thesis
      by (simp add: set_order_by_id_desc set_filter_recipe_user)
  qed
  show ?thesis
    using assms base rec unfolding TagViewSet_get_queryset_def IngredientViewSet_get_queryset_def
    by metis
qed

theorem list_owner_scoping_witness:
  "user_id (request_user (request_of alice [])) \<noteq> user_id bob
   \<and> RecipeViewset_get_queryset example_db (request_of alice [])
        = Inr [new_recipe 2 ''Salad'' 1, new_recipe 1 ''Soup'' 1]
   \<and> TagViewSet_get_queryset example_db (request_of alice [])
        = Inr [new_attr 1 ''vegan'' 1, new_attr 2 ''quick'' 1, new_attr 4 ''dessert'' 1]
   \<and> IngredientViewSet_get_queryset example_db (request_of alice [])
        = Inr [new_attr 1 ''salt'' 1, new_attr 2 ''kale'' 1]
   \<and> recipe_user (new_recipe 2 ''Salad'' 1) \<noteq> user_id bob
   \<and> attr_user (new_attr 4 ''dessert'' 1) \<noteq> user_id bob
   \<and> attr_user (new_attr 2 ''kale'' 1) \<noteq> user_id bob"
proof -
  have h: "user_id (request_user (request_of alice [])) \<noteq> user_id bob"
    by code_simp
  have r: "RecipeViewset_get_queryset example_db (request_of alice [])
        = Inr [new_recipe 2 ''Salad'' 1, new_recipe 1 ''Soup'' 1]"
    by code_simp
  have t: "TagViewSet_get_queryset example_db (request_of alice [])
        = Inr [new_attr 1 ''vegan'' 1, new_attr 2 ''quick'' 1, new_attr 4 ''dessert'' 1]"
    by code_simp
  have i: "IngredientViewSet_get_queryset example_db (request_of alice [])
        = Inr [new_attr 1 ''salt'' 1, new_attr 2 ''kale'' 1]"
    by code_simp
  note L = list_owner_scoping [OF h, of example_db]
  have mr: "new_recipe 2 ''Salad'' 1 \<in> set [new_recipe 2 ''Salad'' 1, new_recipe 1 ''Soup'' 1]"
    by (rule list.set_intros(1))
  have mt: "new_attr 4 ''dessert'' 1
      \<in> set [new_attr 1 ''vegan'' 1, new_attr 2 ''quick'' 1, new_attr 4 ''dessert'' 1]"
    by (intro list.set_intros(1) list.set_intros(2))
  have mi: "new_attr 2 ''kale'' 1 \<in> set [new_attr 1 ''salt'' 1, new_attr 2 ''kale'' 1]"
    by (intro list.set_intros(1) list.set_intros(2))
  have cr: "recipe_user (new_recipe 2 ''Salad'' 1) \<noteq> user_id bob"
    by (rule L [THEN conjunct1, rule_format, OF r mr, THEN conjunct2])
  have ct: "attr_user (new_attr 4 ''dessert'' 1) \<noteq> user_id bob"
    by (rule L [THEN conjunct2, THEN conjunct1, rule_format, OF t mt, THEN conjunct2])
  have ci: "attr_user (new_attr 2 ''kale'' 1) \<noteq> user_id bob"
    by (rule L [THEN conjunct2, THEN conjunct2, rule_format, OF i mi, THEN conjunct2])
  show ?thesis
    by (intro conjI h r t i cr ct ci)
qed

section \<open>Identifiers written in a parameter\<close>

declare decimal_nat.simps [simp del]

lemma decimal_nat_small: "n < 10 \<Longrightarrow> decimal_nat n = [digit_char n]"
  by (subst decimal_nat.simps) simp

lemma decimal_nat_big:
  "\<not> n < 10 \<Longrightarrow> decimal_nat n = decimal_nat (n div 10) @ [digit_char (n mod 10)]"
  by (subst decimal_nat.simps) simp

lemma of_char_digit_char: "n < 10 \<Longrightarrow> (of_char (digit_char n) :: nat) = 48 + n"
  by (simp add: digit_char_def)

lemma is_digit_digit_char: "n < 10 \<Longrightarrow> is_digit (digit_char n)"
  by (simp add: is_digit_def of_char_digit_char)

lemma digit_val_digit_char: "n < 10 \<Longrightarrow> digit_val (digit_char n) = n"
  by (simp add: digit_val_def of_char_digit_char)

lemma digit_char_plain:
  assumes "n < 10"
  shows "\<not> is_int_space (digit_char n)" "digit_char n \<noteq> CHR '',''"
    "digit_char n \<noteq> CHR ''-''" "digit_char n \<noteq> CHR ''+''"
proof -
  have o: "(of_char (digit_char n) :: nat) = 48 + n"
    using assms by (rule of_char_digit_char)
  show "\<not> is_int_space (digit_char n)"
    using assms by (simp add: is_int_space_def o)
  have "(of_char (digit_char n) :: nat) \<noteq> of_char CHR '',''"
    "(of_char (digit_char n) :: nat) \<noteq> of_char CHR ''-''"
    "(of_char (digit_char n) :: nat) \<noteq> of_char CHR ''+''"
    unfolding o by simp_all
  then show "digit_char n \<noteq> CHR '',''" "digit_char n \<noteq> CHR ''-''" "digit_char n \<noteq> CHR ''+''"
    by auto
qed

lemma decimal_nat_digits: "c \<in> set (decimal_nat n) \<Longrightarrow> \<exists>k<10. c = digit_char k"
proof (induction n rule: decimal_nat.induct)
  case (1 n)
  show ?case
  proof (cases "n < 10")
    case True
    with "1.prems" show ?thesis by (auto simp: decimal_nat_small)
  next
    case False
    with "1.prems" have "c \<in> set (decimal_nat (n div 10)) \<or> c = digit_char (n mod 10)"
      by (auto simp: decimal_nat_big)
    then show ?thesis
    proof
      assume "c \<in> set (decimal_nat (n div 10))"
      with "1.IH" False show ?thesis by blast
    next
      assume "c = digit_char (n mod 10)"
      moreover have "n mod 10 < 10" by simp
      ultimately show ?thesis by blast
    qed
  qed
qed

lemma decimal_nat_not_Nil: "decimal_nat n \<noteq> []"
  by (cases "n < 10") (simp_all add: decimal_nat_small decimal_nat_big)

lemma py_digits_decimal_nat:
  "py_digits seen acc (decimal_nat n @ rest)
     = py_digits True (acc * 10 ^ length (decimal_nat n) + n) rest"
proof (induction n arbitrary: seen acc rest rule: decimal_nat.induct)
  case (1 n)
  show ?case
  proof (cases "n < 10")
    case True
    then show ?thesis
      by (simp add: decimal_nat_small is_digit_digit_char digit_val_digit_char)
  next
    case False
    have d: "decimal_nat n = decimal_nat (n div 10) @ [digit_char (n mod 10)]"
      using False by (rule decimal_nat_big)
    have "py_digits seen acc (decimal_nat n @ rest)
        = py_digits seen acc (decimal_nat (n div 10) @ (digit_char (n mod 10) # rest))"
      by (simp add: d)
    also have "\<dots> = py_digits True (acc * 10 ^ length (decimal_nat (n div 10)) + n div 10)
                        (digit_char (n mod 10) # rest)"
      using "1.IH" [OF False] by simp
    also have "\<dots> = py_digits True
          ((acc * 10 ^ length (decimal_nat (n div 10)) + n div 10) * 10 + n mod 10) rest"
      by (simp add: is_digit_digit_char digit_val_digit_char)
    also have "(acc * 10 ^ length (decimal_nat (n div 10)) + n div 10) * 10 + n mod 10
        = acc * 10 ^ length (decimal_nat n) + n"
      by (simp add: d algebra_simps)
    finally show ?thesis .
  qed
qed

lemma py_digits_decimal: "py_digits False 0 (decimal_nat n) = Some n"
  using py_digits_decimal_nat [of False 0 n "[]"] by simp

lemma length_decimal_nat: "n < 10 ^ k \<Longrightarrow> 0 < k \<Longrightarrow> length (decimal_nat n) \<le> k"
proof (induction n arbitrary: k rule: decimal_nat.induct)
  case (1 n)
  show ?case
  proof (cases "n < 10")
    case True
    with "1.prems" show ?thesis by (simp add: decimal_nat_small)
  next
    case False
    have d: "decimal_nat n = decimal_nat (n div 10) @ [digit_char (n mod 10)]"
      using False by (rule decimal_nat_big)
    obtain j where k: "k = Suc j" using "1.prems"(2) by (cases k) auto
    have "0 < j"
      using False "1.prems"(1) k by (cases j) auto
    moreover have "n div 10 < 10 ^ j"
      using "1.prems"(1) k by (simp add: less_mult_imp_div_less mult.commute)
    ultimately have "length (decimal_nat (n div 10)) \<le> j"
      using "1.IH" [OF False] by blast
    then show ?thesis by (simp add: d k)
  qed
qed

lemma dropWhile_all: "list_all P xs \<Longrightarrow> dropWhile P (xs @ ys) = dropWhile P ys"
  by (induction xs) simp_all

lemma dropWhile_hd: "xs \<noteq> [] \<Longrightarrow> \<not> P (hd xs) \<Longrightarrow> dropWhile P xs = xs"
  by (cases xs) simp_all

lemma int_strip_padded:
  assumes "list_all is_int_space l" "list_all is_int_space r"
      and "w \<noteq> []" "\<not> is_int_space (hd w)" "\<not> is_int_space (last w)"
  shows "int_strip (l @ w @ r) = w"
proof -
  have "dropWhile is_int_space (l @ w @ r) = w @ r"
    using assms(1,3,4) by (simp add: dropWhile_all dropWhile_hd)
  moreover have "dropWhile is_int_space (rev r @ rev w) = rev w"
  proof -
    have "list_all is_int_space (rev r)" using assms(2) by (simp add: list_all_iff)
    moreover have "rev w \<noteq> []" "\<not> is_int_space (hd (rev w))"
      using assms(3,5) by (simp_all add: hd_rev)
    ultimately show ?thesis by (simp add: dropWhile_all dropWhile_hd)
  qed
  ultimately show ?thesis
    by (simp add: int_strip_def)
qed

lemma decimal_not_Nil: "decimal i \<noteq> []"
  by (simp add: decimal_def decimal_nat_not_Nil)

lemma decimal_chars_cases:
  assumes "c \<in> set (decimal i)"
  shows "c = CHR ''-'' \<or> (\<exists>k<10. c = digit_char k)"
proof (cases "i < 0")
  case True
  with assms have "c = CHR ''-'' \<or> c \<in> set (decimal_nat (nat (- i)))"
    by (simp add: decimal_def)
  then show ?thesis
    using decimal_nat_digits [of c "nat (- i)"] by (elim disjE) (simp, fast)
next
  case False
  with assms have "c \<in> set (decimal_nat (nat i))"
    by (simp add: decimal_def)
  then show ?thesis
    using decimal_nat_digits [of c "nat i"] by fast
qed

lemma decimal_chars:
  assumes "c \<in> set (decimal i)"
  shows "\<not> is_int_space c" "c \<noteq> CHR '',''"
proof -
  note d = decimal_chars_cases [OF assms]
  from d show "\<not> is_int_space c"
  proof
    assume "c = CHR ''-''"
    then show ?thesis by (simp add: is_int_space_def)
  next
    assume "\<exists>k<10. c = digit_char k"
    then show ?thesis using digit_char_plain(1) by fast
  qed
  from d show "c \<noteq> CHR '',''"
  proof
    assume "c = CHR ''-''"
    then show ?thesis by simp
  next
    assume "\<exists>k<10. c = digit_char k"
    then show ?thesis using digit_char_plain(2) by fast
  qed
qed

lemma length_decimal: "in_db_range i \<Longrightarrow> length (decimal i) \<le> 20"
proof -
  assume r: "in_db_range i"
  have "\<bar>i\<bar> < 10 ^ 19"
    using r unfolding in_db_range_def by (simp add: abs_if)
  then have "nat \<bar>i\<bar> < nat (10 ^ 19)"
    by (simp only: nat_less_eq_zless abs_ge_zero)
  then have "nat \<bar>i\<bar> < 10 ^ 19"
    by simp
  then have "length (decimal_nat (nat \<bar>i\<bar>)) \<le> 19"
    by (rule length_decimal_nat) simp
  then show ?thesis
    by (auto simp: decimal_def abs_if)
qed

lemma py_int_decimal:
  assumes "in_db_range i"
  shows "py_int (decimal i) = Some i"
proof -
  obtain c cs where cs: "decimal i = c # cs"
    using decimal_not_Nil [of i] by (cases "decimal i") auto
  have "int_strip ([] @ decimal i @ []) = decimal i"
  proof (rule int_strip_padded)
    show "decimal i \<noteq> []" by (rule decimal_not_Nil)
    show "\<not> is_int_space (hd (decimal i))"
      by (rule decimal_chars(1) [of _ i]) (simp add: decimal_not_Nil)
    show "\<not> is_int_space (last (decimal i))"
      by (rule decimal_chars(1) [of _ i]) (simp add: decimal_not_Nil)
  qed simp_all
  then have s: "int_strip (decimal i) = c # cs"
    by (simp add: cs)
  have "length (filter is_digit (decimal i)) \<le> length (decimal i)"
    by (rule length_filter_le)
  with length_decimal [OF assms] have "length (filter is_digit (decimal i)) \<le> 20"
    by linarith
  then have l: "\<not> int_max_str_digits < length (filter is_digit (c # cs))"
    unfolding cs by (simp add: int_max_str_digits_def del: filter.simps)
  show ?thesis
  proof (cases "i < 0")
    case True
    then have d: "c = CHR ''-''" "cs = decimal_nat (nat (- i))"
      using cs by (simp_all add: decimal_def)
    have "py_int (decimal i) =
        (if c = CHR ''-'' then map_option (\<lambda>n. - int n) (py_digits False 0 cs)
         else if c = CHR ''+'' then map_option int (py_digits False 0 cs)
         else map_option int (py_digits False 0 (c # cs)))"
      by (simp only: py_int_def s list.case l if_False)
    then have "py_int (decimal i) = map_option (\<lambda>n. - int n) (py_digits False 0 cs)"
      by (simp only: d(1) if_True refl)
    then show ?thesis
      using True by (simp add: d(2) py_digits_decimal)
  next
    case False
    then have d: "c # cs = decimal_nat (nat i)"
      using cs by (simp add: decimal_def)
    then have "c \<in> set (decimal_nat (nat i))"
      by (metis list.set_intros(1))
    then obtain k where "k < 10" "c = digit_char k"
      using decimal_nat_digits by fast
    then have c: "c \<noteq> CHR ''-''" "c \<noteq> CHR ''+''"
      using digit_char_plain(3,4) by simp_all
    have "py_int (decimal i) = map_option int (py_digits False 0 (c # cs))"
      by (simp only: py_int_def s list.case l c if_False)
    then show ?thesis
      using False by (simp only: d py_digits_decimal) simp
  qed
qed

lemma int_strip_decimal_padded:
  assumes "list_all is_int_space l" "list_all is_int_space r"
  shows "int_strip (l @ decimal i @ r) = decimal i"
  using assms
proof (rule int_strip_padded)
  show "decimal i \<noteq> []" by (rule decimal_not_Nil)
  show "\<not> is_int_space (hd (decimal i))"
    by (rule decimal_chars(1) [of _ i]) (simp add: decimal_not_Nil)
  show "\<not> is_int_space (last (decimal i))"
    by (rule decimal_chars(1) [of _ i]) (simp add: decimal_not_Nil)
qed

lemma py_int_spells:
  assumes "spells t i" "in_db_range i"
  shows "py_int t = Some i"
proof -
  from assms(1) obtain l r where lr: "list_all is_int_space l" "list_all is_int_space r"
    and t: "t = l @ decimal i @ r"
    unfolding spells_def by fast
  have a: "int_strip t = decimal i"
    unfolding t by (rule int_strip_decimal_padded [OF lr])
  have b: "int_strip (decimal i) = decimal i"
    using int_strip_decimal_padded [of "[]" "[]" i] by simp
  have "py_int t = py_int (decimal i)"
    by (simp only: py_int_def a b)
  then show ?thesis
    by (simp add: py_int_decimal [OF assms(2)])
qed

lemma int_space_not_comma: "is_int_space c \<Longrightarrow> c \<noteq> CHR '',''"
  by (auto simp: is_int_space_def)

lemma spells_plain:
  assumes "spells t i"
  shows "t \<noteq> []" "CHR '','' \<notin> set t"
proof -
  from assms obtain l r where lr: "list_all is_int_space l" "list_all is_int_space r"
    and t: "t = l @ decimal i @ r"
    unfolding spells_def by fast
  show "t \<noteq> []"
    by (simp add: t decimal_not_Nil)
  have "c \<noteq> CHR '',''" if "c \<in> set t" for c
  proof -
    from that have "c \<in> set l \<or> c \<in> set (decimal i) \<or> c \<in> set r"
      by (simp add: t)
    then show ?thesis
      using lr decimal_chars(2) [of c i] int_space_not_comma [of c]
      by (elim disjE) (simp_all add: list_all_iff)
  qed
  then show "CHR '','' \<notin> set t"
    by fast
qed

lemma str_split_plain: "sep \<notin> set w \<Longrightarrow> str_split sep w = [w]"
  by (induction w) auto

lemma str_split_append:
  "sep \<notin> set w \<Longrightarrow> str_split sep (w @ sep # rest) = w # str_split sep rest"
  by (induction w) auto

lemma str_split_join:
  "ts \<noteq> [] \<Longrightarrow> \<forall>t \<in> set ts. CHR '','' \<notin> set t \<Longrightarrow>
     str_split CHR '','' (join_commas ts) = ts"
proof (induction ts rule: join_commas.induct)
  case 1
  then show ?case by simp
next
  case (2 t)
  then show ?case by (simp add: str_split_plain)
next
  case (3 t u ts)
  then show ?case by (simp add: str_split_append)
qed

lemma join_commas_not_Nil: "ts \<noteq> [] \<Longrightarrow> hd ts \<noteq> [] \<Longrightarrow> join_commas ts \<noteq> []"
  by (induction ts rule: join_commas.induct) simp_all

lemma ints_of_spells:
  "list_all2 spells ts ids \<Longrightarrow> list_all in_db_range ids \<Longrightarrow> ints_of ts = Inr ids"
  by (induction ts ids rule: list_all2_induct) (simp_all add: py_int_spells)

lemma read_filter_lists_ids:
  assumes "lists_ids p f"
  shows "read_filter p = Inr f"
proof (cases f)
  case No_filter
  with assms show ?thesis
    by (auto simp: read_filter_def)
next
  case (Ids ids)
  with assms obtain ts where ids: "ids \<noteq> []" "list_all in_db_range ids"
    and ts: "list_all2 spells ts ids" and p: "p = Some (join_commas ts)"
    by auto
  have ne: "ts \<noteq> []"
    using ts ids(1) by auto
  have plain: "t \<noteq> [] \<and> CHR '','' \<notin> set t" if "t \<in> set ts" for t
  proof -
    from that ts obtain i where "spells t i"
      by (auto simp: list_all2_conv_all_nth in_set_conv_nth)
    then show ?thesis using spells_plain by simp
  qed
  have "hd ts \<in> set ts" using ne by simp
  then have j: "join_commas ts \<noteq> []"
    using plain ne by (intro join_commas_not_Nil) simp_all
  have "str_split CHR '','' (join_commas ts) = ts"
    using plain ne by (intro str_split_join) simp_all
  then have "params_to_ints (join_commas ts) = Inr ids"
    by (simp add: params_to_ints_def ints_of_spells [OF ts ids(2)])
  then show ?thesis
    by (simp add: read_filter_def p j Ids)
qed

section \<open>Filtering recipes by tags and ingredients\<close>

lemma get_queryset_characterised:
  assumes "read_filter (query_params request ''tags'') = Inr tf"
      and "read_filter (query_params request ''ingredients'') = Inr igf"
  shows "\<exists>rs. RecipeViewset_get_queryset d request = Inr rs
          \<and> set rs = {r \<in> set (recipes d). recipe_user r = user_id (request_user request)
                         \<and> passes (recipe_tags d) tf r \<and> passes (recipe_ingredients d) igf r}
          \<and> distinct rs
          \<and> sorted_wrt (\<lambda>a b. recipe_id b \<le> recipe_id a) rs
          \<and> (distinct (map recipe_id (recipes d)) \<longrightarrow> sorted_wrt (\<lambda>a b. recipe_id b < recipe_id a) rs)"
proof -
  define rs where "rs = remdups (order_by_id_desc (filter_recipe_user (request_user request)
      (apply_filter (recipe_ingredients d) igf (apply_filter (recipe_tags d) tf (recipes d)))))"
  have eq: "RecipeViewset_get_queryset d request = Inr rs"
    by (simp add: get_queryset_read_filter assms rs_def)
  have s: "set rs = {r \<in> set (recipes d). recipe_user r = user_id (request_user request)
                         \<and> passes (recipe_tags d) tf r \<and> passes (recipe_ingredients d) igf r}"
    unfolding rs_def set_remdups set_order_by_id_desc set_filter_recipe_user set_apply_filter
    by blast
  have dist: "distinct rs"
    by (simp add: rs_def)
  have o: "sorted_wrt (\<lambda>a b. recipe_id b \<le> recipe_id a) rs"
    unfolding rs_def by (rule recipe_rows_sorted)
  have st: "sorted_wrt (\<lambda>a b. recipe_id b < recipe_id a) rs"
    if pk: "distinct (map recipe_id (recipes d))"
  proof -
    have "set rs \<subseteq> set (recipes d)" unfolding s by blast
    then have "inj_on recipe_id (set rs)" by (rule inj_on_subset_key [OF pk])
    then show ?thesis using dist o by (rule strict_desc_key)
  qed
  show ?thesis
    using eq s dist o st by blast
qed

text \<open>
  Claim C2. Let the \<open>tags\<close> parameter and the \<open>ingredients\<close> parameter each be absent
  or empty, or a comma-separated list of identifiers within 64 bits, each written in
  decimal with or without whitespace around it. Then the recipe list is returned, and it holds exactly the caller's recipes
  that reference at least one listed tag and at least one listed ingredient (a
  parameter that lists nothing restricts nothing). No row is there twice, even when a
  recipe matches several listed identifiers; the identifiers descend, and strictly so
  when the identifiers of the table are unique.
\<close>

theorem recipe_list_filter:
  assumes "lists_ids (query_params request ''tags'') tf"
      and "lists_ids (query_params request ''ingredients'') igf"
  shows "\<exists>rs. RecipeViewset_get_queryset d request = Inr rs
          \<and> set rs = {r \<in> set (recipes d). recipe_user r = user_id (request_user request)
                         \<and> passes (recipe_tags d) tf r \<and> passes (recipe_ingredients d) igf r}
          \<and> distinct rs
          \<and> sorted_wrt (\<lambda>a b. recipe_id b \<le> recipe_id a) rs
          \<and> (distinct (map recipe_id (recipes d)) \<longrightarrow> sorted_wrt (\<lambda>a b. recipe_id b < recipe_id a) rs)"
  by (rule get_queryset_characterised [OF read_filter_lists_ids [OF assms(1)]
        read_filter_lists_ids [OF assms(2)]])

theorem recipe_list_filter_witness:
  "lists_ids (query_params (request_of alice [(''tags'', ''1, 2''), (''ingredients'', ''1'')]) ''tags'')
      (Ids [1, 2])
   \<and> lists_ids (query_params (request_of alice [(''tags'', ''1, 2''), (''ingredients'', ''1'')])
        ''ingredients'') (Ids [1])
   \<and> RecipeViewset_get_queryset example_db
        (request_of alice [(''tags'', ''1, 2''), (''ingredients'', ''1'')])
       = Inr [new_recipe 2 ''Salad'' 1, new_recipe 1 ''Soup'' 1]
   \<and> (\<exists>rs. RecipeViewset_get_queryset example_db
               (request_of alice [(''tags'', ''1, 2''), (''ingredients'', ''1'')]) = Inr rs
          \<and> set rs = {r \<in> set (recipes example_db).
                 recipe_user r
                   = user_id (request_user (request_of alice [(''tags'', ''1, 2''), (''ingredients'', ''1'')]))
                 \<and> passes (recipe_tags example_db) (Ids [1, 2]) r
                 \<and> passes (recipe_ingredients example_db) (Ids [1]) r}
          \<and> distinct rs
          \<and> sorted_wrt (\<lambda>a b. recipe_id b \<le> recipe_id a) rs
          \<and> (distinct (map recipe_id (recipes example_db)) \<longrightarrow>
               sorted_wrt (\<lambda>a b. recipe_id b < recipe_id a) rs))"
proof -
  let ?request = "request_of alice [(''tags'', ''1, 2''), (''ingredients'', ''1'')]"
  have d1: "decimal 1 = ''1''" and d2: "decimal 2 = ''2''"
    by code_simp+
  have s1: "spells ''1'' 1"
    unfolding spells_def by (intro exI [of _ "[]"]) (simp add: d1)
  have s2: "spells '' 2'' 2"
    unfolding spells_def by (intro exI [of _ "'' ''"] exI [of _ "[]"]) (simp add: d2 is_int_space_def)
  have r: "in_db_range 1" "in_db_range 2"
    by (simp_all add: in_db_range_def)
  have qt: "query_params ?request ''tags'' = Some (join_commas [''1'', '' 2''])"
    by code_simp
  have qi: "query_params ?request ''ingredients'' = Some (join_commas [''1''])"
    by code_simp
  have t: "lists_ids (query_params ?request ''tags'') (Ids [1, 2])"
    unfolding qt lists_ids.simps
    by (intro conjI exI [of _ "[''1'', '' 2'']"]) (simp_all add: s1 s2 r)
  have i: "lists_ids (query_params ?request ''ingredients'') (Ids [1])"
    unfolding qi lists_ids.simps
    by (intro conjI exI [of _ "[''1'']"]) (simp_all add: s1 r)
  have v: "RecipeViewset_get_queryset example_db ?request
       = Inr [new_recipe 2 ''Salad'' 1, new_recipe 1 ''Soup'' 1]"
    by code_simp
  show ?thesis
    by (intro conjI t i v recipe_list_filter [OF t i, of example_db])
qed

section \<open>Empty filter parameters\<close>

text \<open>
  Claim C9. A \<open>tags\<close> (or \<open>ingredients\<close>) parameter that is present and empty gives the
  result of the same request without the parameter, whatever the other parameters are,
  although parsing the empty string on its own raises \<open>ValueError\<close>.
\<close>

theorem empty_param_as_absent:
  "RecipeViewset_get_queryset d (request\<lparr>query_params := (query_params request)(''tags'' \<mapsto> [])\<rparr>)
     = RecipeViewset_get_queryset d (request\<lparr>query_params := (query_params request)(''tags'' := None)\<rparr>)
   \<and> RecipeViewset_get_queryset d (request\<lparr>query_params := (query_params request)(''ingredients'' \<mapsto> [])\<rparr>)
     = RecipeViewset_get_queryset d (request\<lparr>query_params := (query_params request)(''ingredients'' := None)\<rparr>)
   \<and> params_to_ints [] = Inl ValueError"
  by (simp add: RecipeViewset_get_queryset_def truthy_def params_to_ints_def py_int_def
      int_strip_def Let_def cong: sum.case_cong if_cong)

theorem empty_param_as_absent_witness:
  "RecipeViewset_get_queryset example_db (request_of alice [(''tags'', '''')])
     = Inr [new_recipe 2 ''Salad'' 1, new_recipe 1 ''Soup'' 1]
   \<and> RecipeViewset_get_queryset example_db ((request_of alice [])\<lparr>query_params := (query_params (request_of alice []))(''tags'' \<mapsto> [])\<rparr>)
     = RecipeViewset_get_queryset example_db ((request_of alice [])\<lparr>query_params := (query_params (request_of alice []))(''tags'' := None)\<rparr>)"
proof -
  have "RecipeViewset_get_queryset example_db (request_of alice [(''tags'', '''')])
     = Inr [new_recipe 2 ''Salad'' 1, new_recipe 1 ''Soup'' 1]"
    by code_simp
  then show ?thesis
    using empty_param_as_absent [of example_db "request_of alice []"] by simp
qed

section \<open>Identifiers that are no integers\<close>

text \<open>
  Claim C4, as the code has it. When a non-empty \<open>tags\<close> or \<open>ingredients\<close> parameter
  has a piece between its commas that \<^verbatim>\<open>int\<close> rejects (\<open>py_int\<close> gives \<open>None\<close>: no
  digits, a character that is no digit, a misplaced sign or underscore, whitespace other
  than what \<^verbatim>\<open>int\<close> drops, too many digits), \<open>get_queryset\<close> raises
  \<open>ValueError\<close>. The exception handler has no response for it, so the list action
  returns no response at all: the exception leaves the view, and the request ends as a
  server error, not as a client error with field messages.
\<close>

theorem bad_id_raises:
  assumes "query_params request ''tags'' = Some s \<or> query_params request ''ingredients'' = Some s"
      and "s \<noteq> []" and "t \<in> set (str_split CHR '','' s)" and "py_int t = None"
  shows "RecipeViewset_get_queryset d request = Inl ValueError
       \<and> RecipeViewset_list to_representation d request = Inl ValueError"
proof -
  have bad: "read_filter (Some s) = Inl ValueError"
    using assms(2-4) by (rule read_filter_bad)
  have "RecipeViewset_get_queryset d request = Inl ValueError"
  proof (cases "read_filter (query_params request ''tags'')")
    case (Inl e)
    then show ?thesis
      by (simp add: get_queryset_read_filter read_filter_error)
  next
    case (Inr tf)
    with bad have "query_params request ''tags'' \<noteq> Some s" by auto
    with assms(1) have "read_filter (query_params request ''ingredients'') = Inl ValueError"
      using bad by simp
    with Inr show ?thesis
      by (simp add: get_queryset_read_filter)
  qed
  then show ?thesis
    by (simp add: RecipeViewset_list_def handle_exception_def)
qed

theorem bad_id_raises_witness:
  "query_params (request_of alice [(''tags'', ''1,x'')]) ''tags'' = Some ''1,x''
   \<and> ''1,x'' \<noteq> [] \<and> ''x'' \<in> set (str_split CHR '','' ''1,x'') \<and> py_int ''x'' = None
   \<and> RecipeViewset_get_queryset example_db (request_of alice [(''tags'', ''1,x'')]) = Inl ValueError
   \<and> RecipeViewset_list recipe_id example_db (request_of alice [(''tags'', ''1,x'')]) = Inl ValueError
   \<and> query_params (request_of alice [(''ingredients'', [CHR 0x1C, CHR ''1''])]) ''ingredients''
        = Some [CHR 0x1C, CHR ''1'']
   \<and> py_int [CHR 0x1C, CHR ''1''] = None
   \<and> RecipeViewset_get_queryset example_db
        (request_of alice [(''ingredients'', [CHR 0x1C, CHR ''1''])]) = Inl ValueError"
proof -
  have a: "query_params (request_of alice [(''tags'', ''1,x'')]) ''tags'' = Some ''1,x''"
    by code_simp
  have b: "''1,x'' \<noteq> []" by simp
  have c: "''x'' \<in> set (str_split CHR '','' ''1,x'')" by code_simp
  have e: "py_int ''x'' = None" by code_simp
  note T = bad_id_raises [OF disjI1 [OF a] b c e, where d = example_db and to_representation = recipe_id]
  have a': "query_params (request_of alice [(''ingredients'', [CHR 0x1C, CHR ''1''])]) ''ingredients''
        = Some [CHR 0x1C, CHR ''1'']"
    by code_simp
  have b': "[CHR 0x1C, CHR ''1''] \<noteq> []" by simp
  have c': "[CHR 0x1C, CHR ''1''] \<in> set (str_split CHR '','' [CHR 0x1C, CHR ''1''])" by code_simp
  have e': "py_int [CHR 0x1C, CHR ''1''] = None" by code_simp
  note T' = bad_id_raises [OF disjI2 [OF a'] b' c' e', where d = example_db and to_representation = recipe_id]
  show ?thesis
    by (intro conjI a b c e T [THEN conjunct1] T [THEN conjunct2] a' e' T' [THEN conjunct1])
qed

text \<open>
  The claim as stated fails for the request \<open>?tags=x\<close>: the list action gives no response,
  so none with a client-error status.
\<close>

theorem bad_id_not_client_error:
  "RecipeViewset_list recipe_id example_db (request_of alice [(''tags'', ''x'')]) = Inl ValueError
   \<and> \<not> (\<exists>st body. RecipeViewset_list recipe_id example_db (request_of alice [(''tags'', ''x'')])
                      = Inr (Response st body))"
proof -
  have "RecipeViewset_list recipe_id example_db (request_of alice [(''tags'', ''x'')]) = Inl ValueError"
    by code_simp
  then show ?thesis by simp
qed

section \<open>The \<open>assigned_only\<close> parameter of the attribute lists\<close>

lemma py_int_1: "py_int ''1'' = Some 1"
  by code_simp

lemma py_int_0: "py_int ''0'' = Some 0"
  by code_simp

lemma base_assigned:
  assumes "query_params request ''assigned_only'' = Some ''1''"
  shows "BaseRecipeAttrViewSet_get_queryset all_rows through request =
     Inr (remdups (order_by_name_desc (filter_attr_user (request_user request)
            (filter_recipe_isnull_False through all_rows))))"
  by (simp add: BaseRecipeAttrViewSet_get_queryset_def assms py_int_1)

lemma base_all:
  assumes "query_params request ''assigned_only'' = Some ''0''
         \<or> query_params request ''assigned_only'' = None"
  shows "BaseRecipeAttrViewSet_get_queryset all_rows through request =
     Inr (remdups (order_by_name_desc (filter_attr_user (request_user request) all_rows)))"
  using assms by (auto simp: BaseRecipeAttrViewSet_get_queryset_def py_int_0)

lemma attr_rows_sorted:
  "sorted_wrt (\<lambda>a b. attr_name b \<le> attr_name a) (remdups (order_by_name_desc rows))"
  by (intro sorted_wrt_remdups sorted_order_by_name_desc)

lemma base_assigned_lists:
  assumes "query_params request ''assigned_only'' = Some ''1''"
  shows "lists_exactly (BaseRecipeAttrViewSet_get_queryset all_rows through request) all_rows
           (\<lambda>a. attr_user a = user_id (request_user request) \<and> attached through a)"
  unfolding base_assigned [OF assms] lists_exactly_def sum.case set_remdups
    set_order_by_name_desc set_filter_attr_user set_filter_recipe_isnull_False
  by (intro conjI attr_rows_sorted distinct_remdups) auto

lemma base_all_lists:
  assumes "query_params request ''assigned_only'' = Some ''0''
         \<or> query_params request ''assigned_only'' = None"
  shows "lists_exactly (BaseRecipeAttrViewSet_get_queryset all_rows through request) all_rows
           (\<lambda>a. attr_user a = user_id (request_user request))"
  unfolding base_all [OF assms] lists_exactly_def sum.case set_remdups
    set_order_by_name_desc set_filter_attr_user
  by (intro conjI attr_rows_sorted distinct_remdups) auto

lemma attached_within_owner:
  assumes "links_within_owner rs as through" "a \<in> set as"
  shows "attached through a = attached_to_recipe_of rs through (attr_user a) a"
proof
  assume "attached through a"
  then obtain l where l: "l \<in> set through" "snd l = attr_id a"
    by (auto simp: attached_def)
  with assms obtain r where "r \<in> set rs" "recipe_id r = fst l" "recipe_user r = attr_user a"
    unfolding links_within_owner_def list_all_iff list_ex_iff by blast
  with l show "attached_to_recipe_of rs through (attr_user a) a"
    unfolding attached_to_recipe_of_def by (metis prod.collapse)
next
  assume "attached_to_recipe_of rs through (attr_user a) a"
  then show "attached through a"
    unfolding attached_to_recipe_of_def attached_def by force
qed

text \<open>
  Claim C3, as the code has it. With \<open>assigned_only=1\<close> the tag list and the ingredient
  list hold exactly the caller's attributes that are attached to at least one recipe,
  whoever owns that recipe; with \<open>assigned_only=0\<close> or without the parameter they hold
  all of the caller's attributes. Either way no row is there twice and the names descend.
  Where every link of the association table joins a recipe and an attribute of one
  owner, attached means attached to a recipe of the attribute's owner.
\<close>

theorem attr_list_assigned_only:
  "(query_params request ''assigned_only'' = Some ''1'' \<longrightarrow>
      lists_exactly (TagViewSet_get_queryset d request) (tags d)
        (\<lambda>a. attr_user a = user_id (request_user request) \<and> attached (recipe_tags d) a)
      \<and> lists_exactly (IngredientViewSet_get_queryset d request) (ingredients d)
        (\<lambda>a. attr_user a = user_id (request_user request) \<and> attached (recipe_ingredients d) a))
   \<and> (query_params request ''assigned_only'' = Some ''0''
        \<or> query_params request ''assigned_only'' = None \<longrightarrow>
      lists_exactly (TagViewSet_get_queryset d request) (tags d)
        (\<lambda>a. attr_user a = user_id (request_user request))
      \<and> lists_exactly (IngredientViewSet_get_queryset d request) (ingredients d)
        (\<lambda>a. attr_user a = user_id (request_user request)))
   \<and> (links_within_owner rs as through \<and> a \<in> set as \<longrightarrow>
        attached through a = attached_to_recipe_of rs through (attr_user a) a)"
proof -
  have "attached through a = attached_to_recipe_of rs through (attr_user a) a"
    if "links_within_owner rs as through \<and> a \<in> set as"
    using that by (intro attached_within_owner [of rs as]) simp_all
  then show ?thesis
    unfolding TagViewSet_get_queryset_def IngredientViewSet_get_queryset_def
    by (intro conjI impI base_assigned_lists base_all_lists) assumption+
qed

theorem attr_list_assigned_only_witness:
  "query_params (request_of alice [(''assigned_only'', ''1'')]) ''assigned_only'' = Some ''1''
   \<and> IngredientViewSet_get_queryset example_db (request_of alice [(''assigned_only'', ''1'')])
        = Inr [new_attr 1 ''salt'' 1, new_attr 2 ''kale'' 1]
   \<and> lists_exactly (IngredientViewSet_get_queryset example_db (request_of alice [(''assigned_only'', ''1'')]))
        (ingredients example_db)
        (\<lambda>a. attr_user a = user_id (request_user (request_of alice [(''assigned_only'', ''1'')]))
             \<and> attached (recipe_ingredients example_db) a)
   \<and> query_params (request_of bob [(''assigned_only'', ''0'')]) ''assigned_only'' = Some ''0''
   \<and> TagViewSet_get_queryset example_db (request_of bob [(''assigned_only'', ''0'')])
        = Inr [new_attr 3 ''spicy'' 2]
   \<and> lists_exactly (TagViewSet_get_queryset example_db (request_of bob [(''assigned_only'', ''0'')]))
        (tags example_db)
        (\<lambda>a. attr_user a = user_id (request_user (request_of bob [(''assigned_only'', ''0'')])))
   \<and> links_within_owner (recipes example_db) (ingredients example_db) (recipe_ingredients example_db)
   \<and> new_attr 1 ''salt'' 1 \<in> set (ingredients example_db)
   \<and> attached (recipe_ingredients example_db) (new_attr 1 ''salt'' 1)
        = attached_to_recipe_of (recipes example_db) (recipe_ingredients example_db)
            (attr_user (new_attr 1 ''salt'' 1)) (new_attr 1 ''salt'' 1)"
proof -
  have h1: "query_params (request_of alice [(''assigned_only'', ''1'')]) ''assigned_only'' = Some ''1''"
    by code_simp
  have v1: "IngredientViewSet_get_queryset example_db (request_of alice [(''assigned_only'', ''1'')])
        = Inr [new_attr 1 ''salt'' 1, new_attr 2 ''kale'' 1]"
    by code_simp
  have h0: "query_params (request_of bob [(''assigned_only'', ''0'')]) ''assigned_only'' = Some ''0''"
    by code_simp
  have v0: "TagViewSet_get_queryset example_db (request_of bob [(''assigned_only'', ''0'')])
        = Inr [new_attr 3 ''spicy'' 2]"
    by code_simp
  have l: "links_within_owner (recipes example_db) (ingredients example_db) (recipe_ingredients example_db)"
    by code_simp
  have m: "new_attr 1 ''salt'' 1 \<in> set (ingredients example_db)"
    by code_simp
  note A = attr_list_assigned_only [of "request_of alice [(''assigned_only'', ''1'')]" example_db,
      THEN conjunct1, rule_format, OF h1, THEN conjunct2]
  note B = attr_list_assigned_only [of "request_of bob [(''assigned_only'', ''0'')]" example_db,
      THEN conjunct2, THEN conjunct1, rule_format, OF disjI1 [OF h0], THEN conjunct1]
  note C = attr_list_assigned_only [THEN conjunct2, THEN conjunct2, rule_format, OF conjI [OF l m]]
  show ?thesis
    by (intro conjI h1 v1 A h0 v0 B l m C)
qed

text \<open>
  The claim as stated fails where a tag of the caller is attached to a recipe of another
  user only: the tag is listed, and it is attached to no recipe of the caller.
\<close>

theorem assigned_only_other_owner:
  "TagViewSet_get_queryset example_db (request_of alice [(''assigned_only'', ''1'')])
     = Inr [new_attr 1 ''vegan'' 1, new_attr 2 ''quick'' 1, new_attr 4 ''dessert'' 1]
   \<and> \<not> attached_to_recipe_of (recipes example_db) (recipe_tags example_db) (user_id alice)
         (new_attr 4 ''dessert'' 1)"
  by code_simp

section \<open>Creating users\<close>

lemma create_user_empty: "create_user mp d [] pw x = Inl ValueError"
  by (simp add: create_user_def)

lemma create_user_nonempty:
  "e \<noteq> [] \<Longrightarrow> create_user mp d e pw x =
     save_user d ((User (normalize_email e) x)\<lparr>password := mp pw\<rparr>)"
  by (simp add: create_user_def Let_def)

lemma save_user_duplicate:
  "email u \<in> set (map email (users d)) \<Longrightarrow> save_user d u = Inl IntegrityError"
  by (simp add: save_user_def)

lemma save_user_new:
  "email u \<notin> set (map email (users d)) \<Longrightarrow>
     save_user d u = Inr (u\<lparr>user_id := next_id (map user_id (users d))\<rparr>,
                          d\<lparr>users := users d @ [u\<lparr>user_id := next_id (map user_id (users d))\<rparr>]\<rparr>)"
  by (simp add: save_user_def Let_def)

lemma email_new_user: "email ((User e x)\<lparr>password := h\<rparr>) = e"
  by (simp add: User_def)

lemma create_user_duplicate:
  assumes "e \<noteq> []" "normalize_email e \<in> set (map email (users d))"
  shows "create_user mp d e pw x = Inl IntegrityError"
  unfolding create_user_nonempty [OF assms(1)]
  by (rule save_user_duplicate) (simp only: email_new_user assms(2))

lemma create_user_new:
  assumes "e \<noteq> []" "normalize_email e \<notin> set (map email (users d))"
  shows "create_user mp d e pw x =
     Inr ((User (normalize_email e) x)\<lparr>password := mp pw, user_id := next_id (map user_id (users d))\<rparr>,
          d\<lparr>users := users d @ [(User (normalize_email e) x)\<lparr>password := mp pw, user_id := next_id (map user_id (users d))\<rparr>]\<rparr>)"
proof -
  have "email ((User (normalize_email e) x)\<lparr>password := mp pw\<rparr>) \<notin> set (map email (users d))"
    by (simp only: email_new_user assms(2) not_False_eq_True)
  then show ?thesis
    unfolding create_user_nonempty [OF assms(1)] by (rule save_user_new)
qed

lemma create_user_error:
  "create_user mp d e pw x = Inl exc \<Longrightarrow> (exc = ValueError \<and> e = []) \<or> (exc = IntegrityError \<and> e \<noteq> [])"
  by (cases "e = []"; cases "normalize_email e \<in> set (map email (users d))")
     (simp_all add: create_user_empty create_user_duplicate create_user_new)

lemma rsplit_at_append:
  assumes "CHR ''@'' \<notin> set dm"
  shows "rsplit_at (n @ ''@'' @ dm) = Some (n, dm)"
proof -
  have r: "rev (n @ ''@'' @ dm) = rev dm @ CHR ''@'' # rev n"
    by simp
  have a: "\<forall>c \<in> set (rev dm). c \<noteq> CHR ''@''"
    using assms by auto
  have d: "dropWhile (\<lambda>c. c \<noteq> CHR ''@'') (rev dm @ CHR ''@'' # rev n) = CHR ''@'' # rev n"
    using a by (simp add: dropWhile_append3)
  have t: "takeWhile (\<lambda>c. c \<noteq> CHR ''@'') (rev dm @ CHR ''@'' # rev n) = rev dm"
    using a by (simp add: takeWhile_tail)
  show ?thesis
    unfolding rsplit_at_def r d t by simp
qed

lemma normalize_email_domain:
  assumes "CHR ''@'' \<notin> set dm" "str_strip (n @ ''@'' @ dm) = n @ ''@'' @ dm"
  shows "normalize_email (n @ ''@'' @ dm) = n @ ''@'' @ str_lower dm"
  unfolding normalize_email_def assms(2) rsplit_at_append [OF assms(1)] by simp

text \<open>
  Claim C5, as the code has it. \<open>create_user\<close> raises \<open>ValueError\<close> exactly when the
  email is empty, and never \<open>ValidationError\<close>. With a non-empty email whose normalized
  form no stored user has, it returns the created user and stores it: the email is the
  normalized one, the credential is what the hasher makes of the given password, so it
  is the plaintext only where the hasher returns its input. With a non-empty email
  that is stored already the insert fails with \<open>IntegrityError\<close>. Normalizing an
  address \<open>name@domain\<close> without surrounding whitespace lower-cases the domain and
  keeps the name.
\<close>

theorem create_user_result:
  "(create_user mp d e pw x = Inl ValueError \<longleftrightarrow> e = [])
   \<and> create_user mp d e pw x \<noteq> Inl ValidationError
   \<and> (e \<noteq> [] \<and> normalize_email e \<notin> set (map email (users d)) \<longrightarrow>
        (\<exists>u d'. create_user mp d e pw x = Inr (u, d')
           \<and> email u = normalize_email e
           \<and> password u = mp pw
           \<and> users d' = users d @ [u]
           \<and> (\<forall>p. pw = Some p \<and> mp (Some p) \<noteq> p \<longrightarrow> password u \<noteq> p)))
   \<and> (e \<noteq> [] \<and> normalize_email e \<in> set (map email (users d)) \<longrightarrow>
        create_user mp d e pw x = Inl IntegrityError)
   \<and> (CHR ''@'' \<notin> set dm \<and> str_strip (n @ ''@'' @ dm) = n @ ''@'' @ dm \<longrightarrow>
        normalize_email (n @ ''@'' @ dm) = n @ ''@'' @ str_lower dm)"
proof (intro conjI impI)
  show "(create_user mp d e pw x = Inl ValueError) = (e = [])"
    using create_user_error [of mp d e pw x ValueError] create_user_empty [of mp d pw x]
    by auto
  show "create_user mp d e pw x \<noteq> Inl ValidationError"
    using create_user_error [of mp d e pw x ValidationError] by auto
next
  assume h: "e \<noteq> [] \<and> normalize_email e \<notin> set (map email (users d))"
  define u where "u = (User (normalize_email e) x)\<lparr>password := mp pw, user_id := next_id (map user_id (users d))\<rparr>"
  have "create_user mp d e pw x = Inr (u, d\<lparr>users := users d @ [u]\<rparr>)"
    unfolding u_def using h by (intro create_user_new) simp_all
  moreover have "email u = normalize_email e" "password u = mp pw"
    by (simp_all add: u_def User_def)
  ultimately show "\<exists>u d'. create_user mp d e pw x = Inr (u, d')
           \<and> email u = normalize_email e
           \<and> password u = mp pw
           \<and> users d' = users d @ [u]
           \<and> (\<forall>p. pw = Some p \<and> mp (Some p) \<noteq> p \<longrightarrow> password u \<noteq> p)"
    by (intro exI [of _ u] exI [of _ "d\<lparr>users := users d @ [u]\<rparr>"]) simp
next
  assume "e \<noteq> [] \<and> normalize_email e \<in> set (map email (users d))"
  then show "create_user mp d e pw x = Inl IntegrityError"
    by (intro create_user_duplicate) simp_all
next
  assume "CHR ''@'' \<notin> set dm \<and> str_strip (n @ ''@'' @ dm) = n @ ''@'' @ dm"
  then show "normalize_email (n @ ''@'' @ dm) = n @ ''@'' @ str_lower dm"
    by (intro normalize_email_domain) simp_all
qed

theorem create_user_result_witness:
  "create_user example_hasher example_db [] (Some ''secret'') no_extra = Inl ValueError
   \<and> ''Test@EXAMPLE.com'' \<noteq> []
   \<and> normalize_email ''Test@EXAMPLE.com'' \<notin> set (map email (users example_db))
   \<and> map_sum id fst (create_user example_hasher example_db ''Test@EXAMPLE.com'' (Some ''secret'') no_extra)
        = Inr \<lparr>user_id = 3, email = ''Test@example.com'', password = ''sha$terces'', name = [],
               is_active = True, is_staff = False, is_superuser = False\<rparr>
   \<and> (\<exists>u d'. create_user example_hasher example_db ''Test@EXAMPLE.com'' (Some ''secret'') no_extra = Inr (u, d')
           \<and> email u = normalize_email ''Test@EXAMPLE.com''
           \<and> password u = example_hasher (Some ''secret'')
           \<and> users d' = users example_db @ [u]
           \<and> (\<forall>p. Some ''secret'' = Some p \<and> example_hasher (Some p) \<noteq> p \<longrightarrow> password u \<noteq> p))
   \<and> normalize_email ''alice@example.com'' \<in> set (map email (users example_db))
   \<and> create_user example_hasher example_db ''alice@example.com'' (Some ''secret'') no_extra
        = Inl IntegrityError
   \<and> CHR ''@'' \<notin> set ''EXAMPLE.com''
   \<and> str_strip (''Test'' @ ''@'' @ ''EXAMPLE.com'') = ''Test'' @ ''@'' @ ''EXAMPLE.com''
   \<and> normalize_email (''Test'' @ ''@'' @ ''EXAMPLE.com'') = ''Test'' @ ''@'' @ str_lower ''EXAMPLE.com''"
proof -
  note T = create_user_result [of example_hasher example_db _ "Some ''secret''" no_extra]
  have a: "create_user example_hasher example_db [] (Some ''secret'') no_extra = Inl ValueError"
    by (rule T [of "[]", THEN conjunct1, THEN iffD2, OF refl])
  have b1: "''Test@EXAMPLE.com'' \<noteq> []" by simp
  have b2: "normalize_email ''Test@EXAMPLE.com'' \<notin> set (map email (users example_db))"
    by code_simp
  have v: "map_sum id fst (create_user example_hasher example_db ''Test@EXAMPLE.com'' (Some ''secret'') no_extra)
        = Inr \<lparr>user_id = 3, email = ''Test@example.com'', password = ''sha$terces'', name = [],
               is_active = True, is_staff = False, is_superuser = False\<rparr>"
    by code_simp
  note c = T [of "''Test@EXAMPLE.com''", THEN conjunct2, THEN conjunct2, THEN conjunct1,
      rule_format, OF conjI [OF b1 b2]]
  have d1: "''alice@example.com'' \<noteq> []" by simp
  have d2: "normalize_email ''alice@example.com'' \<in> set (map email (users example_db))"
    by code_simp
  note e = T [of "''alice@example.com''", THEN conjunct2, THEN conjunct2, THEN conjunct2,
      THEN conjunct1, rule_format, OF conjI [OF d1 d2]]
  have f1: "CHR ''@'' \<notin> set ''EXAMPLE.com''" by code_simp
  have f2: "str_strip (''Test'' @ ''@'' @ ''EXAMPLE.com'') = ''Test'' @ ''@'' @ ''EXAMPLE.com''"
    by code_simp
  note g = T [of "[]" "''EXAMPLE.com''" "''Test''", THEN conjunct2, THEN conjunct2, THEN conjunct2,
      THEN conjunct2, rule_format, OF conjI [OF f1 f2]]
  show ?thesis
    by (intro conjI a b1 b2 v c d2 e f1 f2 g)
qed

text \<open>
  The claim as stated fails for the empty email: the exception is \<open>ValueError\<close>, not
  \<open>ValidationError\<close>.
\<close>

theorem create_user_raises_ValueError:
  "create_user example_hasher example_db [] (Some ''secret'') no_extra = Inl ValueError
   \<and> create_user example_hasher example_db [] (Some ''secret'') no_extra \<noteq> Inl ValidationError"
  by code_simp

text \<open>
  Claim C10. Without a password (the argument at its default \<open>None\<close>) \<open>create_user\<close>
  returns a user for every non-empty email that is not stored yet, with the credential
  that the hasher gives for \<open>None\<close>; and it fails without a password exactly as it
  fails with any password: the password has no part in what is checked.
\<close>

theorem create_user_without_password:
  "(e \<noteq> [] \<and> normalize_email e \<notin> set (map email (users d)) \<longrightarrow>
      (\<exists>u d'. create_user mp d e None x = Inr (u, d') \<and> password u = mp None
          \<and> users d' = users d @ [u]))
   \<and> (create_user mp d e None x = Inl exc) = (create_user mp d e pw x = Inl exc)"
proof (intro conjI impI)
  assume h: "e \<noteq> [] \<and> normalize_email e \<notin> set (map email (users d))"
  define u where "u = (User (normalize_email e) x)\<lparr>password := mp None, user_id := next_id (map user_id (users d))\<rparr>"
  have "create_user mp d e None x = Inr (u, d\<lparr>users := users d @ [u]\<rparr>)"
    unfolding u_def using h by (intro create_user_new) simp_all
  moreover have "password u = mp None"
    by (simp add: u_def)
  ultimately show "\<exists>u d'. create_user mp d e None x = Inr (u, d') \<and> password u = mp None
          \<and> users d' = users d @ [u]"
    by (intro exI [of _ u] exI [of _ "d\<lparr>users := users d @ [u]\<rparr>"]) simp
next
  show "(create_user mp d e None x = Inl exc) = (create_user mp d e pw x = Inl exc)"
    by (cases "e = []"; cases "normalize_email e \<in> set (map email (users d))")
       (simp_all add: create_user_empty create_user_duplicate create_user_new)
qed

theorem create_user_without_password_witness:
  "''carol@example.com'' \<noteq> []
   \<and> normalize_email ''carol@example.com'' \<notin> set (map email (users example_db))
   \<and> map_sum id fst (create_user example_hasher example_db ''carol@example.com'' None no_extra)
        = Inr \<lparr>user_id = 3, email = ''carol@example.com'', password = ''!'', name = [],
               is_active = True, is_staff = False, is_superuser = False\<rparr>
   \<and> (\<exists>u d'. create_user example_hasher example_db ''carol@example.com'' None no_extra = Inr (u, d')
          \<and> password u = example_hasher None \<and> users d' = users example_db @ [u])"
proof -
  have e1: "''carol@example.com'' \<noteq> []" by simp
  have e2: "normalize_email ''carol@example.com'' \<notin> set (map email (users example_db))"
    by code_simp
  have v: "map_sum id fst (create_user example_hasher example_db ''carol@example.com'' None no_extra)
        = Inr \<lparr>user_id = 3, email = ''carol@example.com'', password = ''!'', name = [],
               is_active = True, is_staff = False, is_superuser = False\<rparr>"
    by code_simp
  show ?thesis
    by (intro conjI e1 e2 v
        create_user_without_password [THEN conjunct1, rule_format, OF conjI [OF e1 e2]])
qed

section \<open>Creating superusers\<close>

lemma create_superuser_unfold:
  "create_superuser mp d e pw x =
     (if ef_is_staff x = Some False \<or> ef_is_superuser x = Some False then Inl ValueError
      else create_user mp d e pw (setdefault_is_superuser (setdefault_is_staff x)))"
  by (cases "ef_is_staff x"; cases "ef_is_superuser x")
     (auto simp: create_superuser_def setdefault_is_staff_def setdefault_is_superuser_def Let_def)

lemma setdefault_flags:
  "ef_is_staff x \<noteq> Some False \<Longrightarrow> ef_is_superuser x \<noteq> Some False \<Longrightarrow>
     ef_is_staff (setdefault_is_superuser (setdefault_is_staff x)) = Some True
     \<and> ef_is_superuser (setdefault_is_superuser (setdefault_is_staff x)) = Some True"
  by (cases "ef_is_staff x"; cases "ef_is_superuser x")
     (auto simp: setdefault_is_staff_def setdefault_is_superuser_def)

lemma setdefault_absent:
  "ef_is_staff x = None \<Longrightarrow> ef_is_superuser x = None \<Longrightarrow>
     setdefault_is_superuser (setdefault_is_staff x)
       = x\<lparr>ef_is_staff := Some True, ef_is_superuser := Some True\<rparr>"
  by (simp add: setdefault_is_staff_def setdefault_is_superuser_def)

lemma create_user_flags:
  "create_user mp d e pw x = Inr (u, d') \<Longrightarrow>
     is_staff u = (case ef_is_staff x of None \<Rightarrow> False | Some b \<Rightarrow> b)
     \<and> is_superuser u = (case ef_is_superuser x of None \<Rightarrow> False | Some b \<Rightarrow> b)"
  by (cases "e = []"; cases "normalize_email e \<in> set (map email (users d))")
     (auto simp: create_user_empty create_user_duplicate create_user_new User_def)

text \<open>
  Claim C6, as the code has it. \<open>create_superuser\<close> raises \<open>ValueError\<close>, never
  \<open>ValidationError\<close>, when the caller gives \<open>False\<close> for \<open>is_staff\<close> or for
  \<open>is_superuser\<close>. Every user it returns has both flags set. When neither flag is
  given it is \<open>create_user\<close> with both flags \<open>True\<close>, and it returns such a user for
  every non-empty email that is not stored yet.
\<close>

theorem create_superuser_flags:
  "(ef_is_staff x = Some False \<or> ef_is_superuser x = Some False \<longrightarrow>
       create_superuser mp d e pw x = Inl ValueError)
   \<and> create_superuser mp d e pw x \<noteq> Inl ValidationError
   \<and> (\<forall>u d'. create_superuser mp d e pw x = Inr (u, d') \<longrightarrow> is_staff u \<and> is_superuser u)
   \<and> (ef_is_staff x = None \<and> ef_is_superuser x = None \<longrightarrow>
       create_superuser mp d e pw x
         = create_user mp d e pw (x\<lparr>ef_is_staff := Some True, ef_is_superuser := Some True\<rparr>)
       \<and> (e \<noteq> [] \<and> normalize_email e \<notin> set (map email (users d)) \<longrightarrow>
            (\<exists>u d'. create_superuser mp d e pw x = Inr (u, d') \<and> is_staff u \<and> is_superuser u)))"
proof -
  have flags: "is_staff u \<and> is_superuser u" if ok: "create_superuser mp d e pw x = Inr (u, d')" for u d'
  proof -
    have no: "ef_is_staff x \<noteq> Some False" "ef_is_superuser x \<noteq> Some False"
      using ok by (auto simp: create_superuser_unfold split: if_splits)
    then have "create_user mp d e pw (setdefault_is_superuser (setdefault_is_staff x)) = Inr (u, d')"
      using ok by (simp add: create_superuser_unfold)
    from create_user_flags [OF this] setdefault_flags [OF no] show ?thesis
      by simp
  qed
  have bad: "create_superuser mp d e pw x = Inl ValueError"
    if "ef_is_staff x = Some False \<or> ef_is_superuser x = Some False"
    using that by (simp add: create_superuser_unfold)
  have nv: "create_superuser mp d e pw x \<noteq> Inl ValidationError"
    using create_user_error [of mp d e pw _ ValidationError]
    by (auto simp: create_superuser_unfold split: if_splits)
  have eq: "create_superuser mp d e pw x
         = create_user mp d e pw (x\<lparr>ef_is_staff := Some True, ef_is_superuser := Some True\<rparr>)"
    if "ef_is_staff x = None \<and> ef_is_superuser x = None"
    using that by (simp add: create_superuser_unfold setdefault_absent)
  have ok: "\<exists>u d'. create_superuser mp d e pw x = Inr (u, d') \<and> is_staff u \<and> is_superuser u"
    if n: "ef_is_staff x = None \<and> ef_is_superuser x = None"
      and f: "e \<noteq> [] \<and> normalize_email e \<notin> set (map email (users d))"
  proof -
    obtain u d' where "create_user mp d e pw (x\<lparr>ef_is_staff := Some True, ef_is_superuser := Some True\<rparr>) = Inr (u, d')"
      using create_user_new [of e d] f by blast
    with eq [OF n] have "create_superuser mp d e pw x = Inr (u, d')" by simp
    with flags show ?thesis by blast
  qed
  show ?thesis
    using flags bad nv eq ok by blast
qed

theorem create_superuser_flags_witness:
  "ef_is_staff (no_extra\<lparr>ef_is_staff := Some False\<rparr>) = Some False
   \<and> create_superuser example_hasher example_db ''root@example.com'' (Some ''secret'')
        (no_extra\<lparr>ef_is_staff := Some False\<rparr>) = Inl ValueError
   \<and> ef_is_staff no_extra = None \<and> ef_is_superuser no_extra = None
   \<and> ''root@example.com'' \<noteq> []
   \<and> normalize_email ''root@example.com'' \<notin> set (map email (users example_db))
   \<and> create_superuser example_hasher example_db ''root@example.com'' (Some ''secret'') no_extra
        = create_user example_hasher example_db ''root@example.com'' (Some ''secret'')
            (no_extra\<lparr>ef_is_staff := Some True, ef_is_superuser := Some True\<rparr>)
   \<and> map_sum id fst (create_superuser example_hasher example_db ''root@example.com'' (Some ''secret'') no_extra)
        = Inr \<lparr>user_id = 3, email = ''root@example.com'', password = ''sha$terces'', name = [],
               is_active = True, is_staff = True, is_superuser = True\<rparr>
   \<and> (\<exists>u d'. create_superuser example_hasher example_db ''root@example.com'' (Some ''secret'') no_extra
                 = Inr (u, d') \<and> is_staff u \<and> is_superuser u)"
proof -
  note T = create_superuser_flags [of _ example_hasher example_db "''root@example.com''" "Some ''secret''"]
  have a: "ef_is_staff (no_extra\<lparr>ef_is_staff := Some False\<rparr>) = Some False"
    by simp
  note b = T [THEN conjunct1, rule_format, OF disjI1 [OF a]]
  have n1: "ef_is_staff no_extra = None" by code_simp
  have n2: "ef_is_superuser no_extra = None" by code_simp
  have e1: "''root@example.com'' \<noteq> []" by simp
  have e2: "normalize_email ''root@example.com'' \<notin> set (map email (users example_db))"
    by code_simp
  note N = T [of no_extra, THEN conjunct2, THEN conjunct2, THEN conjunct2, rule_format, OF conjI [OF n1 n2]]
  have v: "map_sum id fst (create_superuser example_hasher example_db ''root@example.com'' (Some ''secret'') no_extra)
        = Inr \<lparr>user_id = 3, email = ''root@example.com'', password = ''sha$terces'', name = [],
               is_active = True, is_staff = True, is_superuser = True\<rparr>"
    by code_simp
  show ?thesis
    by (intro conjI a b n1 n2 e1 e2 N [THEN conjunct1] v
        N [THEN conjunct2, rule_format, OF conjI [OF e1 e2]])
qed

text \<open>
  The claim as stated fails for \<open>is_staff=False\<close>: the exception is \<open>ValueError\<close>, not
  \<open>ValidationError\<close>.
\<close>

theorem create_superuser_raises_ValueError:
  "create_superuser example_hasher example_db ''root@example.com'' (Some ''secret'')
     (no_extra\<lparr>ef_is_staff := Some False\<rparr>) = Inl ValueError
   \<and> create_superuser example_hasher example_db ''root@example.com'' (Some ''secret'')
     (no_extra\<lparr>ef_is_staff := Some False\<rparr>) \<noteq> Inl ValidationError"
  by code_simp

section \<open>Uploading an image\<close>

lemma read_filter_falsy: "\<not> truthy p \<Longrightarrow> read_filter p = Inr No_filter"
  by (cases p) (auto simp: truthy_def read_filter_def)

lemma get_queryset_unfiltered:
  assumes "\<not> truthy (query_params request ''tags'')" "\<not> truthy (query_params request ''ingredients'')"
  shows "RecipeViewset_get_queryset d request =
     Inr (remdups (order_by_id_desc (filter_recipe_user (request_user request) (recipes d))))"
  by (simp add: get_queryset_read_filter read_filter_falsy assms)

lemma get_queryset_Inr_set:
  assumes "RecipeViewset_get_queryset d request = Inr rs"
  shows "set rs \<subseteq> {r \<in> set (recipes d). recipe_user r = user_id (request_user request)}"
proof -
  from assms obtain rows where
    rows: "set rows \<subseteq> set (recipes d)"
    and rs: "rs = remdups (order_by_id_desc (filter_recipe_user (request_user request) rows))"
  proof (cases "read_filter (query_params request ''tags'')";
         cases "read_filter (query_params request ''ingredients'')")
    fix tf igf
    assume t: "read_filter (query_params request ''tags'') = Inr tf"
      and i: "read_filter (query_params request ''ingredients'') = Inr igf"
    assume r: "\<And>rows. set rows \<subseteq> set (recipes d) \<Longrightarrow>
      rs = remdups (order_by_id_desc (filter_recipe_user (request_user request) rows)) \<Longrightarrow> thesis"
    have "set (apply_filter (recipe_ingredients d) igf (apply_filter (recipe_tags d) tf (recipes d)))
        \<subseteq> set (recipes d)"
      unfolding set_apply_filter by blast
    moreover have "rs = remdups (order_by_id_desc (filter_recipe_user (request_user request)
        (apply_filter (recipe_ingredients d) igf (apply_filter (recipe_tags d) tf (recipes d)))))"
      using assms by (simp add: get_queryset_read_filter t i)
    ultimately show thesis by (rule r)
  qed (simp_all add: get_queryset_read_filter)
  have "set rs = {r \<in> set rows. recipe_user r = user_id (request_user request)}"
    unfolding rs set_remdups set_order_by_id_desc set_filter_recipe_user ..
  with rows show ?thesis
    by blast
qed

lemma filter_key_unique:
  fixes f :: "'a \<Rightarrow> int"
  assumes "inj_on f (set xs)" "distinct xs" "x \<in> set xs"
  shows "filter (\<lambda>r. f r = f x) xs = [x]"
  using assms
proof (induction xs)
  case Nil
  then show ?case by simp
next
  case (Cons a xs)
  show ?case
  proof (cases "a = x")
    case True
    then have "x \<notin> set xs" using Cons.prems(2) by simp
    then have "\<forall>r \<in> set xs. f r \<noteq> f x"
      using Cons.prems(1) True by (auto simp: inj_on_def)
    then have "filter (\<lambda>r. f r = f x) xs = []"
      by (simp add: filter_empty_conv)
    with True show ?thesis by simp
  next
    case False
    then have "x \<in> set xs" using Cons.prems(3) by simp
    moreover have "f a \<noteq> f x"
      using Cons.prems(1,3) False by (auto simp: inj_on_def)
    ultimately show ?thesis
      using Cons by simp
  qed
qed

lemma filter_singleton_mem: "filter P xs = [x] \<Longrightarrow> x \<in> set xs \<and> P x"
proof -
  assume "filter P xs = [x]"
  then have "x \<in> set (filter P xs)" by simp
  then show ?thesis by simp
qed

lemma get_object_Inr:
  assumes "get_object d request pk = Inr recipe"
  shows "recipe \<in> set (recipes d) \<and> recipe_id recipe = pk
       \<and> recipe_user recipe = user_id (request_user request)"
proof -
  from assms obtain rs where rs: "RecipeViewset_get_queryset d request = Inr rs"
    and f: "filter (\<lambda>r. recipe_id r = pk) rs = [recipe]"
  proof (cases "RecipeViewset_get_queryset d request")
    case (Inl e)
    with assms show ?thesis by (simp add: get_object_def)
  next
    case (Inr rs)
    assume r: "\<And>rs. RecipeViewset_get_queryset d request = Inr rs \<Longrightarrow>
      filter (\<lambda>r. recipe_id r = pk) rs = [recipe] \<Longrightarrow> thesis"
    have "filter (\<lambda>r. recipe_id r = pk) rs = [recipe]"
    proof (cases "filter (\<lambda>r. recipe_id r = pk) rs")
      case Nil
      with assms Inr show ?thesis by (simp add: get_object_def)
    next
      case (Cons a as)
      with assms Inr show ?thesis by (cases as) (simp_all add: get_object_def)
    qed
    with Inr show ?thesis by (rule r)
  qed
  from filter_singleton_mem [OF f] get_queryset_Inr_set [OF rs] show ?thesis
    by blast
qed

lemma get_object_owned:
  assumes "recipe \<in> set (recipes d)" "recipe_user recipe = user_id (request_user request)"
      and "distinct (map recipe_id (recipes d))"
      and "\<not> truthy (query_params request ''tags'')" "\<not> truthy (query_params request ''ingredients'')"
  shows "get_object d request (recipe_id recipe) = Inr recipe"
proof -
  define rs where "rs = remdups (order_by_id_desc (filter_recipe_user (request_user request) (recipes d)))"
  have q: "RecipeViewset_get_queryset d request = Inr rs"
    unfolding rs_def by (rule get_queryset_unfiltered [OF assms(4,5)])
  have s: "set rs = {r \<in> set (recipes d). recipe_user r = user_id (request_user request)}"
    unfolding rs_def set_remdups set_order_by_id_desc set_filter_recipe_user ..
  have m: "recipe \<in> set rs"
    unfolding s using assms(1,2) by simp
  have "set rs \<subseteq> set (recipes d)"
    unfolding s by blast
  then have i: "inj_on recipe_id (set rs)"
    by (rule inj_on_subset_key [OF assms(3)])
  have "distinct rs"
    by (simp add: rs_def)
  from filter_key_unique [OF i this m] show ?thesis
    by (simp add: get_object_def q)
qed

lemma serializer_update_eq:
  "serializer_update d r img =
     (r\<lparr>image := Some img\<rparr>,
      d\<lparr>recipes := map (\<lambda>x. if recipe_id x = recipe_id r then r\<lparr>image := Some img\<rparr> else x)
                        (recipes d)\<rparr>)"
  by (simp add: serializer_update_def Let_def)

lemma upload_image_valid:
  assumes "get_object d request pk = Inr recipe" "run_validation request_data = Inr img"
  shows "upload_image run_validation to_representation d request request_data pk =
     Inr (Response 200 (Record (to_representation (recipe\<lparr>image := Some img\<rparr>))),
          d\<lparr>recipes := map (\<lambda>x. if recipe_id x = recipe_id recipe then recipe\<lparr>image := Some img\<rparr> else x)
                        (recipes d)\<rparr>)"
  by (simp add: upload_image_def assms serializer_update_eq)

lemma upload_image_invalid:
  assumes "get_object d request pk = Inr recipe" "run_validation request_data = Inl errors"
  shows "upload_image run_validation to_representation d request request_data pk =
     Inr (Response 400 (FieldErrors errors), d)"
  by (simp add: upload_image_def assms)

text \<open>
  Claim C7, as the code has it. When \<open>get_object\<close> resolves the recipe of a POST to the
  upload action, a payload that passes validation is stored (the row with that
  identifier now carries the image, nothing else changes) and the response has status
  200 with the representation of the updated recipe; a payload that fails validation
  changes nothing and the response has status 400 with the errors by field name. Every
  recipe of the caller is resolved when the identifiers of the table are unique and
  the URL has no \<open>tags\<close> and no \<open>ingredients\<close> parameter.
\<close>

theorem upload_image_resolved:
  "(get_object d request pk = Inr recipe \<longrightarrow>
      (\<forall>img. run_validation request_data = Inr img \<longrightarrow>
         upload_image run_validation to_representation d request request_data pk
           = Inr (Response 200 (Record (to_representation (recipe\<lparr>image := Some img\<rparr>))),
                  d\<lparr>recipes := map (\<lambda>r. if recipe_id r = pk then recipe\<lparr>image := Some img\<rparr> else r)
                                   (recipes d)\<rparr>)
         \<and> recipe\<lparr>image := Some img\<rparr>
             \<in> set (map (\<lambda>r. if recipe_id r = pk then recipe\<lparr>image := Some img\<rparr> else r) (recipes d)))
      \<and> (\<forall>errors. run_validation request_data = Inl errors \<longrightarrow>
         upload_image run_validation to_representation d request request_data pk
           = Inr (Response 400 (FieldErrors errors), d)))
   \<and> (recipe \<in> set (recipes d) \<and> recipe_id recipe = pk
        \<and> recipe_user recipe = user_id (request_user request)
        \<and> distinct (map recipe_id (recipes d))
        \<and> \<not> truthy (query_params request ''tags'')
        \<and> \<not> truthy (query_params request ''ingredients'') \<longrightarrow>
      get_object d request pk = Inr recipe)"
proof (intro conjI impI allI)
  fix img
  assume g: "get_object d request pk = Inr recipe" and v: "run_validation request_data = Inr img"
  from get_object_Inr [OF g] have m: "recipe \<in> set (recipes d)" and pk: "recipe_id recipe = pk"
    by simp_all
  show "upload_image run_validation to_representation d request request_data pk
           = Inr (Response 200 (Record (to_representation (recipe\<lparr>image := Some img\<rparr>))),
                  d\<lparr>recipes := map (\<lambda>r. if recipe_id r = pk then recipe\<lparr>image := Some img\<rparr> else r)
                                   (recipes d)\<rparr>)"
    using upload_image_valid [of d request pk recipe run_validation request_data img to_representation,
        OF g v] unfolding pk .
  have "(\<lambda>r. if recipe_id r = pk then recipe\<lparr>image := Some img\<rparr> else r) recipe = recipe\<lparr>image := Some img\<rparr>"
    using pk by simp
  then show "recipe\<lparr>image := Some img\<rparr>
             \<in> set (map (\<lambda>r. if recipe_id r = pk then recipe\<lparr>image := Some img\<rparr> else r) (recipes d))"
    unfolding set_map using m by (intro image_eqI [of _ _ recipe]) (simp_all add: pk)
next
  fix errors
  assume "get_object d request pk = Inr recipe" "run_validation request_data = Inl errors"
  then show "upload_image run_validation to_representation d request request_data pk
           = Inr (Response 400 (FieldErrors errors), d)"
    by (rule upload_image_invalid)
next
  assume a: "recipe \<in> set (recipes d) \<and> recipe_id recipe = pk
        \<and> recipe_user recipe = user_id (request_user request)
        \<and> distinct (map recipe_id (recipes d))
        \<and> \<not> truthy (query_params request ''tags'')
        \<and> \<not> truthy (query_params request ''ingredients'')"
  then have "get_object d request (recipe_id recipe) = Inr recipe"
    by (intro get_object_owned) simp_all
  with a show "get_object d request pk = Inr recipe"
    by simp
qed

theorem upload_image_resolved_witness:
  "get_object example_db (request_of alice []) 1 = Inr (new_recipe 1 ''Soup'' 1)
   \<and> example_validation (Some ''soup.png'') = Inr ''uploads/recipe/soup.png''
   \<and> upload_image example_validation recipe_id example_db (request_of alice []) (Some ''soup.png'') 1
       = Inr (Response 200 (Record (recipe_id ((new_recipe 1 ''Soup'' 1)\<lparr>image := Some ''uploads/recipe/soup.png''\<rparr>))),
              example_db\<lparr>recipes := map (\<lambda>r. if recipe_id r = 1
                  then (new_recipe 1 ''Soup'' 1)\<lparr>image := Some ''uploads/recipe/soup.png''\<rparr> else r)
                  (recipes example_db)\<rparr>)
   \<and> (new_recipe 1 ''Soup'' 1)\<lparr>image := Some ''uploads/recipe/soup.png''\<rparr>
       \<in> set (map (\<lambda>r. if recipe_id r = 1
                  then (new_recipe 1 ''Soup'' 1)\<lparr>image := Some ''uploads/recipe/soup.png''\<rparr> else r)
                (recipes example_db))
   \<and> example_validation None = Inl [(''image'', [''No file was submitted.''])]
   \<and> upload_image example_validation recipe_id example_db (request_of alice []) None 1
       = Inr (Response 400 (FieldErrors [(''image'', [''No file was submitted.''])]), example_db)
   \<and> new_recipe 1 ''Soup'' 1 \<in> set (recipes example_db)
   \<and> recipe_id (new_recipe 1 ''Soup'' 1) = 1
   \<and> recipe_user (new_recipe 1 ''Soup'' 1) = user_id (request_user (request_of alice []))
   \<and> distinct (map recipe_id (recipes example_db))
   \<and> \<not> truthy (query_params (request_of alice []) ''tags'')
   \<and> \<not> truthy (query_params (request_of alice []) ''ingredients'')"
proof -
  have m: "new_recipe 1 ''Soup'' 1 \<in> set (recipes example_db)" by code_simp
  have i: "recipe_id (new_recipe 1 ''Soup'' 1) = 1" by code_simp
  have u: "recipe_user (new_recipe 1 ''Soup'' 1) = user_id (request_user (request_of alice []))"
    by code_simp
  have k: "distinct (map recipe_id (recipes example_db))" by code_simp
  have t: "\<not> truthy (query_params (request_of alice []) ''tags'')" by code_simp
  have n: "\<not> truthy (query_params (request_of alice []) ''ingredients'')" by code_simp
  have v: "example_validation (Some ''soup.png'') = Inr ''uploads/recipe/soup.png''" by code_simp
  have e: "example_validation None = Inl [(''image'', [''No file was submitted.''])]" by code_simp
  note g = upload_image_resolved [THEN conjunct2, rule_format,
      OF conjI [OF m conjI [OF i conjI [OF u conjI [OF k conjI [OF t n]]]]]]
  note V = upload_image_resolved [of example_db "request_of alice []" 1 "new_recipe 1 ''Soup'' 1"
      example_validation "Some ''soup.png''" recipe_id,
      THEN conjunct1, rule_format, OF g, THEN conjunct1, rule_format, OF v]
  note E = upload_image_resolved [of example_db "request_of alice []" 1 "new_recipe 1 ''Soup'' 1"
      example_validation None recipe_id,
      THEN conjunct1, rule_format, OF g, THEN conjunct2, rule_format, OF e]
  show ?thesis
    by (intro conjI g v V [THEN conjunct1] V [THEN conjunct2] e E m i u k t n)
qed

text \<open>
  The claim as stated fails for a POST whose URL carries a \<open>tags\<close> parameter: the
  recipe is the caller's and the payload is valid, yet \<open>?tags=x\<close> ends in
  \<open>ValueError\<close> and \<open>?tags=3\<close> (a tag the recipe does not carry) in \<open>Http404\<close>.
\<close>

theorem upload_image_query_filter:
  "new_recipe 1 ''Soup'' 1 \<in> set (recipes example_db)
   \<and> recipe_user (new_recipe 1 ''Soup'' 1) = user_id alice
   \<and> example_validation (Some ''soup.png'') = Inr ''uploads/recipe/soup.png''
   \<and> upload_image example_validation recipe_id example_db
        (request_of alice [(''tags'', ''x'')]) (Some ''soup.png'') 1 = Inl ValueError
   \<and> upload_image example_validation recipe_id example_db
        (request_of alice [(''tags'', ''3'')]) (Some ''soup.png'') 1 = Inl Http404"
  by code_simp

section \<open>Creating a recipe\<close>

text \<open>
  Claim C8. Whatever the validated payload says about an owner, \<open>perform_create\<close>
  hands the serializer's \<open>create\<close> the data with the caller as the user; with the
  \<open>create\<close> of the specification the stored recipe is owned by the caller.
\<close>

theorem perform_create_owner:
  "perform_create create d request validated
     = create d (validated\<lparr>vd_user := Some (request_user request)\<rparr>)
   \<and> (\<exists>r. perform_create recipe_create d request validated
             = Inr (r, d\<lparr>recipes := recipes d @ [r]\<rparr>)
          \<and> recipe_user r = user_id (request_user request)
          \<and> title r = vd_title validated)"
  by (simp add: perform_create_def serializer_save_def recipe_create_def Let_def)

theorem perform_create_owner_witness:
  "vd_user soup_data = Some bob
   \<and> map_sum id fst (perform_create recipe_create example_db (request_of alice []) soup_data)
       = Inr (new_recipe 4 ''Soup'' 1)
   \<and> (\<exists>r. perform_create recipe_create example_db (request_of alice []) soup_data
             = Inr (r, example_db\<lparr>recipes := recipes example_db @ [r]\<rparr>)
          \<and> recipe_user r = user_id (request_user (request_of alice []))
          \<and> title r = vd_title soup_data)"
proof -
  have a: "vd_user soup_data = Some bob" by code_simp
  have b: "map_sum id fst (perform_create recipe_create example_db (request_of alice []) soup_data)
       = Inr (new_recipe 4 ''Soup'' 1)"
    by code_simp
  show ?thesis
    by (intro conjI a b perform_create_owner [where create = recipe_create, THEN conjunct2])
qed

end
